theory Spec2Isabelle
  imports Main "HOL-Library.AList"
begin

section \<open>Python values\<close>

text \<open>
  The metadata records of \<^verbatim>\<open>pylibs/harbourmaster/info.py\<close> are JSON documents held
  in Python dicts. A value is \<^verbatim>\<open>None\<close>, a bool, an int, a str, a list or a dict with
  str keys. A dict is an association list in insertion order; a Python dict never
  holds a key twice, which is the predicate \<open>wf_dict\<close>. Strings are byte strings
  (ASCII); JSON floats are not part of the model.
\<close>

datatype pyval =
    PNone
  | PBool bool
  | PInt int
  | PStr string
  | PList "pyval list"
  | PDict "(string \<times> pyval) list"

type_synonym dict = "(string \<times> pyval) list"

datatype error =
    KeyError string
  | TypeError
  | AttributeError
  | NameError
  | UnboundLocalError
  | AssertionError
  | ZeroDivisionError
  | OverflowError

definition wf_dict :: "dict \<Rightarrow> bool" where
  "wf_dict d = distinct (map fst d)"

text \<open>\<^verbatim>\<open>d[k] = v\<close>: an existing key keeps its place, a new key goes last.\<close>

definition dict_set :: "dict \<Rightarrow> string \<Rightarrow> pyval \<Rightarrow> dict" where
  "dict_set d k v = AList.update k v d"

text \<open>\<^verbatim>\<open>d.get(k, default)\<close>.\<close>

definition dict_get :: "dict \<Rightarrow> string \<Rightarrow> pyval \<Rightarrow> pyval" where
  "dict_get d k dflt = (case map_of d k of None \<Rightarrow> dflt | Some v \<Rightarrow> v)"

text \<open>
  \<^verbatim>\<open>v in (True, False)\<close>: the tuple membership test compares with \<^verbatim>\<open>==\<close>, and Python
  has \<^verbatim>\<open>1 == True\<close> and \<^verbatim>\<open>0 == False\<close>.
\<close>

fun in_true_false :: "pyval \<Rightarrow> bool" where
  "in_true_false (PBool b) = True"
| "in_true_false (PInt i) = (i = 0 \<or> i = 1)"
| "in_true_false v = False"

fun is_str :: "pyval \<Rightarrow> bool" where
  "is_str (PStr s) = True"
| "is_str v = False"

fun is_list :: "pyval \<Rightarrow> bool" where
  "is_list (PList xs) = True"
| "is_list v = False"

fun is_dict :: "pyval \<Rightarrow> bool" where
  "is_dict (PDict d) = True"
| "is_dict v = False"

section \<open>String methods\<close>

text \<open>
  The \<^verbatim>\<open>str\<close> methods the program calls, on ASCII strings. \<open>is_space\<close> is
  \<^verbatim>\<open>str.isspace\<close> on one character (codes 9 to 13, the four separators 28 to 31,
  and the blank), which is also the whitespace class of \<^verbatim>\<open>re\<close>; \<open>is_word\<close> is its
  class of word characters (letters, digits and the underscore).
\<close>

definition is_space :: "char \<Rightarrow> bool" where
  "is_space c = (let n = (of_char c :: nat) in (9 \<le> n \<and> n \<le> 13) \<or> (28 \<le> n \<and> n \<le> 32))"

definition is_word :: "char \<Rightarrow> bool" where
  "is_word c =
    (let n = (of_char c :: nat) in
       (48 \<le> n \<and> n \<le> 57) \<or> (65 \<le> n \<and> n \<le> 90) \<or> n = 95 \<or> (97 \<le> n \<and> n \<le> 122))"

definition lower_char :: "char \<Rightarrow> char" where
  "lower_char c =
    (let n = (of_char c :: nat) in if 65 \<le> n \<and> n \<le> 90 then char_of (n + 32) else c)"

text \<open>\<^verbatim>\<open>s.lower()\<close>, and \<^verbatim>\<open>s.casefold()\<close>, which agrees with it on ASCII.\<close>

definition lower :: "string \<Rightarrow> string" where
  "lower s = map lower_char s"

definition strip :: "string \<Rightarrow> string" where
  "strip s = rev (dropWhile is_space (rev (dropWhile is_space s)))"

definition startswith :: "string \<Rightarrow> string \<Rightarrow> bool" where
  "startswith s p = (take (length p) s = p)"

definition endswith :: "string \<Rightarrow> string \<Rightarrow> bool" where
  "endswith s p = (length p \<le> length s \<and> drop (length s - length p) s = p)"

text \<open>\<^verbatim>\<open>needle in haystack\<close> for two strings.\<close>

fun contains :: "string \<Rightarrow> string \<Rightarrow> bool" where
  "contains needle [] = (needle = [])"
| "contains needle (c # cs) = (startswith (c # cs) needle \<or> contains needle cs)"

text \<open>\<^verbatim>\<open>s.rsplit(sep, 1)[-1]\<close> for a one-character \<open>sep\<close>: what follows its last occurrence.\<close>

definition rsplit_last :: "char \<Rightarrow> string \<Rightarrow> string" where
  "rsplit_last sep s = rev (takeWhile (\<lambda>c. c \<noteq> sep) (rev s))"

text \<open>\<^verbatim>\<open>s.split(sep)\<close> for a one-character \<open>sep\<close>.\<close>

fun split_on :: "char \<Rightarrow> string \<Rightarrow> string list" where
  "split_on sep [] = [[]]"
| "split_on sep (c # cs) =
    (if c = sep then [] # split_on sep cs
     else (case split_on sep cs of
             [] \<Rightarrow> [[c]]
           | piece # pieces \<Rightarrow> (c # piece) # pieces))"

text \<open>
  \<^verbatim>\<open>s.replace(old, new)\<close> for a non-empty \<open>old\<close>: the occurrences are taken from
  the left and do not overlap.
\<close>

function replace :: "string \<Rightarrow> string \<Rightarrow> string \<Rightarrow> string" where
  "replace old new [] = []"
| "replace old new (c # cs) =
    (if old \<noteq> [] \<and> startswith (c # cs) old
     then new @ replace old new (drop (length old) (c # cs))
     else c # replace old new cs)"
  by pat_completeness auto
termination
  by (relation "measure (\<lambda>(old, new, s). length s)") auto

section \<open>The canonical schema\<close>

definition PORT_INFO_ROOT_ATTRS :: dict where
  "PORT_INFO_ROOT_ATTRS =
    [(''version'', PInt 2),
     (''name'', PNone),
     (''items'', PNone),
     (''items_opt'', PNone),
     (''attr'', PDict []),
     (''status'', PNone),
     (''files'', PNone)]"

definition PORT_INFO_ATTR_ATTRS :: dict where
  "PORT_INFO_ATTR_ATTRS =
    [(''title'', PStr ''''),
     (''desc'', PStr ''''),
     (''inst'', PStr ''''),
     (''genres'', PList []),
     (''porter'', PStr ''''),
     (''image'', PDict []),
     (''rtr'', PBool False),
     (''runtime'', PNone),
     (''reqs'', PList [])]"

section \<open>\<^verbatim>\<open>port_info_merge\<close>\<close>

text \<open>
  The function updates \<^verbatim>\<open>port_info\<close> in place, so the model returns the final
  \<^verbatim>\<open>port_info\<close> together with what the call returned or raised. A loop that raises
  keeps the writes it had made.

  One pass of the first loop, for a root key other than \<^verbatim>\<open>'attr'\<close>, with
  \<open>value_a = port_info[attr]\<close> and \<open>value_b = other_info[attr]\<close>.
\<close>

definition merge_root_step :: "dict \<Rightarrow> string \<Rightarrow> pyval \<Rightarrow> pyval \<Rightarrow> dict" where
  "merge_root_step port_info attr value_a value_b =
    (if value_a = PNone \<or> value_a = PStr '''' \<or> value_a = PList [] then
       dict_set port_info attr value_b
     else if in_true_false value_b \<and> (in_true_false value_a \<or> value_a = PNone) then
       dict_set port_info attr value_b
     else if is_str value_b \<and> (value_a = PStr '''' \<or> value_a = PNone) then
       dict_set port_info attr value_b
     else if is_list value_b \<and> (value_a = PList [] \<or> value_a = PNone) then
       dict_set port_info attr value_b
     else if is_dict value_b \<and> (value_a = PDict [] \<or> value_a = PNone) then
       dict_set port_info attr value_b
     else port_info)"

text \<open>
  The first loop runs over the keys of \<^verbatim>\<open>PORT_INFO_ROOT_ATTRS\<close> in order and leaves
  at \<^verbatim>\<open>'attr'\<close> (\<^verbatim>\<open>break\<close>), so the keys after it are never visited.
\<close>

fun merge_root_loop :: "string list \<Rightarrow> dict \<Rightarrow> dict \<Rightarrow> dict \<times> error option" where
  "merge_root_loop [] port_info other_info = (port_info, None)"
| "merge_root_loop (attr # rest) port_info other_info =
    (if attr = ''attr'' then (port_info, None)
     else case map_of port_info attr of
       None \<Rightarrow> (port_info, Some (KeyError attr))
     | Some value_a \<Rightarrow>
        (case map_of other_info attr of
           None \<Rightarrow> (port_info, Some (KeyError attr))
         | Some value_b \<Rightarrow>
             merge_root_loop rest (merge_root_step port_info attr value_a value_b) other_info))"

text \<open>
  One pass of the second loop once \<^verbatim>\<open>key_b\<close> is known to be a key of
  \<^verbatim>\<open>port_info['attr']\<close>, whose value there is \<open>value_a\<close>.
\<close>

definition merge_attr_step :: "dict \<Rightarrow> string \<Rightarrow> pyval \<Rightarrow> pyval \<Rightarrow> dict" where
  "merge_attr_step attrs key_b value_a value_b =
    (if in_true_false value_b \<and> (in_true_false value_a \<or> value_a = PNone) then
       dict_set attrs key_b value_b
     else if is_str value_b \<and> (value_a = PStr '''' \<or> value_a = PNone) then
       dict_set attrs key_b value_b
     else if is_list value_b \<and> (value_a = PList [] \<or> value_a = PNone) then
       dict_set attrs key_b value_b
     else if is_dict value_b \<and> (value_a = PDict [] \<or> value_a = PNone) then
       dict_set attrs key_b value_b
     else attrs)"

text \<open>
  The second loop runs over \<^verbatim>\<open>other_info['attr'].items()\<close>. Each pass reads
  \<^verbatim>\<open>port_info['attr']\<close> anew. The test \<^verbatim>\<open>key_b not in port_info['attr']\<close> is a key
  lookup on a dict, a membership test on a list and a substring test on a str, and
  raises on anything else. On a list or a str the subscript
  \<^verbatim>\<open>port_info['attr'][key_b]\<close> raises; it is evaluated in the first of the four
  tests whose left half holds, so for a \<^verbatim>\<open>value_b\<close> that is neither a boolean, a
  str, a list nor a dict it is never evaluated.
\<close>

definition reads_value_a :: "pyval \<Rightarrow> bool" where
  "reads_value_a value_b =
    (in_true_false value_b \<or> is_str value_b \<or> is_list value_b \<or> is_dict value_b)"

fun merge_attr_loop :: "dict \<Rightarrow> dict \<Rightarrow> dict \<times> error option" where
  "merge_attr_loop [] port_info = (port_info, None)"
| "merge_attr_loop ((key_b, value_b) # rest) port_info =
    (case map_of port_info ''attr'' of
       None \<Rightarrow> (port_info, Some (KeyError ''attr''))
     | Some (PDict attrs) \<Rightarrow>
        (case map_of attrs key_b of
           None \<Rightarrow> merge_attr_loop rest port_info
         | Some value_a \<Rightarrow>
             merge_attr_loop rest
               (dict_set port_info ''attr'' (PDict (merge_attr_step attrs key_b value_a value_b))))
     | Some (PList xs) \<Rightarrow>
        (if PStr key_b \<in> set xs \<and> reads_value_a value_b then (port_info, Some TypeError)
         else merge_attr_loop rest port_info)
     | Some (PStr s) \<Rightarrow>
        (if contains key_b s \<and> reads_value_a value_b then (port_info, Some TypeError)
         else merge_attr_loop rest port_info)
     | Some v \<Rightarrow> (port_info, Some TypeError))"

text \<open>
  \<^verbatim>\<open>port_info_merge(port_info, other)\<close>, for a \<^verbatim>\<open>port_info\<close> that is a dict. A str
  \<^verbatim>\<open>other\<close> goes to \<^verbatim>\<open>port_info_parse\<close>, a name the module does not define; a
  dict is merged; anything else returns \<^verbatim>\<open>None\<close>. The writes store \<^verbatim>\<open>value_b\<close>
  itself or a copy of it, which are the same value.
\<close>

definition port_info_merge :: "dict \<Rightarrow> pyval \<Rightarrow> dict \<times> (error + pyval)" where
  "port_info_merge port_info other =
    (case other of
       PStr s \<Rightarrow> (port_info, Inl NameError)
     | PDict other_info \<Rightarrow>
        (case merge_root_loop (map fst PORT_INFO_ROOT_ATTRS) port_info other_info of
           (p1, Some e) \<Rightarrow> (p1, Inl e)
         | (p1, None) \<Rightarrow>
            (case map_of other_info ''attr'' of
               None \<Rightarrow> (p1, Inl (KeyError ''attr''))
             | Some (PDict other_attrs) \<Rightarrow>
                (case merge_attr_loop other_attrs p1 of
                   (p2, Some e) \<Rightarrow> (p2, Inl e)
                 | (p2, None) \<Rightarrow> (p2, Inr (PDict p2)))
             | Some v \<Rightarrow> (p1, Inl AttributeError)))
     | v \<Rightarrow> (port_info, Inr PNone))"

section \<open>\<^verbatim>\<open>port_info_load\<close>\<close>

text \<open>\<^verbatim>\<open>v == 1\<close>, which \<^verbatim>\<open>True\<close> satisfies too.\<close>

fun eq_one :: "pyval \<Rightarrow> bool" where
  "eq_one (PInt i) = (i = 1)"
| "eq_one (PBool b) = b"
| "eq_one v = False"

text \<open>
  The upgrade of an older document: taken when \<^verbatim>\<open>info.get('version') == 1\<close> or when
  \<^verbatim>\<open>'source'\<close> is a key. \<^verbatim>\<open>info['source']\<close> raises when the key is missing, and
  \<^verbatim>\<open>rsplit\<close> exists on a str only; \<^verbatim>\<open>info.get('attr', {}).get\<close> raises unless
  \<^verbatim>\<open>attr\<close> is a dict.
\<close>

definition migrate :: "dict \<Rightarrow> error + dict" where
  "migrate info =
    (if eq_one (dict_get info ''version'' PNone) \<or> map_of info ''source'' \<noteq> None then
       (case map_of info ''source'' of
          None \<Rightarrow> Inl (KeyError ''source'')
        | Some (PStr source) \<Rightarrow>
           (let info1 = dict_set info ''name'' (PStr (rsplit_last CHR ''/'' source));
                info2 = AList.delete ''source'' info1;
                info3 = dict_set info2 ''version'' (PInt 2);
                info4 =
                  (if dict_get info3 ''md5'' PNone = PNone then info3
                   else AList.delete ''md5''
                     (dict_set info3 ''status''
                       (PDict [(''source'', PStr ''Unknown''),
                               (''md5'', dict_get info3 ''md5'' PNone),
                               (''status'', PStr ''Unknown'')])))
            in case dict_get info4 ''attr'' (PDict []) of
                 PDict attrs \<Rightarrow>
                   (if dict_get attrs ''runtime'' PNone = PStr ''blank''
                    then Inr (dict_set info4 ''attr'' (PDict (dict_set attrs ''runtime'' PNone)))
                    else Inr info4)
               | v \<Rightarrow> Inl AttributeError)
        | Some v \<Rightarrow> Inl AttributeError)
     else Inr info)"

text \<open>A \<^verbatim>\<open>reqs\<close> given as a dict becomes the list of its keys.\<close>

definition reqs_keys :: "dict \<Rightarrow> error + dict" where
  "reqs_keys info =
    (case dict_get info ''attr'' (PDict []) of
       PDict attrs \<Rightarrow>
         (case dict_get attrs ''reqs'' PNone of
            PDict reqs \<Rightarrow>
              Inr (dict_set info ''attr''
                     (PDict (dict_set attrs ''reqs'' (PList (map (\<lambda>kv. PStr (fst kv)) reqs)))))
          | v \<Rightarrow> Inr info)
     | v \<Rightarrow> Inl AttributeError)"

text \<open>
  The two loops that fill \<^verbatim>\<open>port_info\<close> from the defaults. When \<^verbatim>\<open>info\<close> has an
  \<^verbatim>\<open>attr\<close>, \<^verbatim>\<open>port_info['attr']\<close> is that very dict, so the second loop reads the
  dict it writes; without one, each pass reads a fresh empty dict.
\<close>

definition fill_root :: "dict \<Rightarrow> dict" where
  "fill_root info =
    foldl (\<lambda>port_info (attr, attr_default). dict_set port_info attr (dict_get info attr attr_default))
      [] PORT_INFO_ROOT_ATTRS"

definition fill_attr :: "bool \<Rightarrow> dict \<Rightarrow> dict" where
  "fill_attr shared attrs =
    foldl (\<lambda>port_attr (attr, attr_default).
             dict_set port_attr attr (dict_get (if shared then port_attr else []) attr attr_default))
      attrs PORT_INFO_ATTR_ATTRS"

text \<open>\<^verbatim>\<open>del items[i]\<close>, for \<open>i\<close> in range.\<close>

definition del_at :: "nat \<Rightarrow> 'a list \<Rightarrow> 'a list" where
  "del_at i xs = take i xs @ drop (Suc i) xs"

text \<open>
  The \<^verbatim>\<open>while\<close> loop over \<^verbatim>\<open>port_info['items']\<close> (and, with the same body, over
  \<^verbatim>\<open>port_info['items_opt']\<close>). The first three tests delete and \<^verbatim>\<open>continue\<close>; the
  test for the empty string deletes and falls through to \<^verbatim>\<open>i += 1\<close>.
  \<^verbatim>\<open>startswith\<close> exists on a str only.
\<close>

function items_loop :: "nat \<Rightarrow> pyval list \<Rightarrow> error + pyval list" where
  "items_loop i items =
    (if i < length items then
       (case items ! i of
          PStr item \<Rightarrow>
            (if startswith item ''/'' then items_loop i (del_at i items)
             else if startswith item ''../'' then items_loop i (del_at i items)
             else if contains ''/../'' item then items_loop i (del_at i items)
             else if item = '''' then items_loop (i + 1) (del_at i items)
             else items_loop (i + 1) items)
        | v \<Rightarrow> Inl AttributeError)
     else Inr items)"
  by pat_completeness auto
termination
  by (relation "measure (\<lambda>(i, items). length items - i)") (auto simp: del_at_def)

text \<open>
  The loop over \<^verbatim>\<open>genres\<close>: a genre is kept, case-folded, when its case-folded form
  is in \<^verbatim>\<open>HM_GENRES\<close>. That table is imported from a module outside the sources and
  is a parameter here.
\<close>

fun genres_loop :: "string list \<Rightarrow> pyval list \<Rightarrow> error + pyval list" where
  "genres_loop HM_GENRES [] = Inr []"
| "genres_loop HM_GENRES (PStr genre # genres) =
    (case genres_loop HM_GENRES genres of
       Inl e \<Rightarrow> Inl e
     | Inr kept \<Rightarrow>
         Inr (if lower genre \<in> set HM_GENRES then PStr (lower genre) # kept else kept))"
| "genres_loop HM_GENRES (v # genres) = Inl AttributeError"

text \<open>The part of \<^verbatim>\<open>port_info_load\<close> that follows the decoding of \<^verbatim>\<open>raw_info\<close>.\<close>

definition load_dict :: "string list \<Rightarrow> dict \<Rightarrow> error + pyval" where
  "load_dict HM_GENRES info0 =
    (case migrate info0 of
       Inl e \<Rightarrow> Inl e
     | Inr info1 \<Rightarrow>
    (case reqs_keys info1 of
       Inl e \<Rightarrow> Inl e
     | Inr info \<Rightarrow>
    (case map_of (fill_root info) ''attr'' of
       Some (PDict attrs) \<Rightarrow>
         (let port_info1 =
                dict_set (fill_root info) ''attr''
                  (PDict (fill_attr (map_of info ''attr'' \<noteq> None) attrs))
          in case (case dict_get port_info1 ''items'' PNone of
                     PList items \<Rightarrow>
                       (case items_loop 0 items of
                          Inl e \<Rightarrow> Inl e
                        | Inr items' \<Rightarrow> Inr (dict_set port_info1 ''items'' (PList items')))
                   | v \<Rightarrow> Inr port_info1) of
               Inl e \<Rightarrow> Inl e
             | Inr port_info2 \<Rightarrow>
          (case (case dict_get port_info2 ''items_opt'' PNone of
                     PList items \<Rightarrow>
                       (case items_loop 0 items of
                          Inl e \<Rightarrow> Inl e
                        | Inr items' \<Rightarrow>
                            Inr (dict_set port_info2 ''items_opt''
                                   (if items' = [] then PNone else PList items')))
                   | v \<Rightarrow> Inr port_info2) of
               Inl e \<Rightarrow> Inl e
             | Inr port_info3 \<Rightarrow>
          (case dict_get port_info3 ''attr'' PNone of
             PDict attrs3 \<Rightarrow>
               (case dict_get attrs3 ''genres'' PNone of
                  PList genres \<Rightarrow>
                    (case genres_loop HM_GENRES genres of
                       Inl e \<Rightarrow> Inl e
                     | Inr kept \<Rightarrow>
                         Inr (PDict (dict_set port_info3 ''attr''
                                       (PDict (dict_set attrs3 ''genres'' (PList kept))))))
                | v \<Rightarrow> Inr (PDict port_info3))
           | v \<Rightarrow> Inl AttributeError)))
     | v \<Rightarrow> Inl AttributeError)))"

text \<open>
  \<^verbatim>\<open>port_info_load(raw_info)\<close> for a \<^verbatim>\<open>raw_info\<close> that is not a path object. Only a
  dict gets through: the branch for a str that looks like JSON reads the local
  \<^verbatim>\<open>info\<close> before it is bound, and every other branch formats a log message from a
  name that is not bound (\<^verbatim>\<open>raw_inf\<close>, \<^verbatim>\<open>rawinfo\<close>, \<^verbatim>\<open>raw_in\<close>). The arguments
  \<^verbatim>\<open>source_name\<close> and \<^verbatim>\<open>do_default\<close> are read on those branches only. The
  decorator \<^verbatim>\<open>timeit\<close> is imported from a module outside the sources and is taken
  to return what the function returns.
\<close>

definition port_info_load :: "string list \<Rightarrow> pyval \<Rightarrow> error + pyval" where
  "port_info_load HM_GENRES raw_info =
    (case raw_info of
       PDict info \<Rightarrow> load_dict HM_GENRES info
     | PStr s \<Rightarrow>
         (if startswith (strip s) ''{'' \<and> endswith (strip s) ''}'' then Inl UnboundLocalError
          else Inl NameError)
     | v \<Rightarrow> Inl NameError)"

section \<open>The text catalogue: \<^verbatim>\<open>_parse_port_info\<close>\<close>

text \<open>
  The parser reads a line with \<^verbatim>\<open>re.findall\<close> and the pattern
  \<^verbatim>\<open>(?:^|\s)(\w+)="(.+?)"(?=\s+\w+=|$)\<close>. The functions below are that pattern, part
  by part, on the rest of the text still to be read.

  \<open>lookahead\<close> is \<^verbatim>\<open>(?=\s+\w+=|$)\<close>: blanks, then word characters, then \<^verbatim>\<open>=\<close>
  (the classes are disjoint, so only the longest runs can match), or the end of the
  text, which \<^verbatim>\<open>$\<close> also sees before one final newline.
\<close>

definition lookahead :: "string \<Rightarrow> bool" where
  "lookahead s =
    ((takeWhile is_space s \<noteq> []
        \<and> takeWhile is_word (dropWhile is_space s) \<noteq> []
        \<and> startswith (dropWhile is_word (dropWhile is_space s)) ''='')
     \<or> s = [] \<or> s = [CHR 0x0A])"

text \<open>
  \<^verbatim>\<open>(.+?)"\<close> and the lookahead: the value is the shortest non-empty run of characters
  other than the newline that is followed by a quote at which the lookahead holds.
  \<open>acc\<close> is the value read so far.
\<close>

fun lazy_value :: "string \<Rightarrow> string \<Rightarrow> (string \<times> string) option" where
  "lazy_value acc [] = None"
| "lazy_value acc (c # cs) =
    (if acc \<noteq> [] \<and> c = CHR 0x22 \<and> lookahead cs then Some (acc, cs)
     else if c = CHR 0x0A then None
     else lazy_value (acc @ [c]) cs)"

text \<open>
  \<^verbatim>\<open>(\w+)="\<close> and what follows: the key is the longest run of word characters (a
  shorter one is followed by a word character, not by \<^verbatim>\<open>=\<close>). The result is the
  key, the value and the text after the closing quote.
\<close>

definition match_kv :: "string \<Rightarrow> (string \<times> string \<times> string) option" where
  "match_kv s =
    (if takeWhile is_word s \<noteq> [] \<and> startswith (dropWhile is_word s) [CHR ''='', CHR 0x22] then
       (case lazy_value [] (drop 2 (dropWhile is_word s)) of
          None \<Rightarrow> None
        | Some (v, rest) \<Rightarrow> Some (takeWhile is_word s, v, rest))
     else None)"

text \<open>
  One attempt at a position: \<^verbatim>\<open>(?:^|\s)\<close> tries the start of the text first, then
  one blank.
\<close>

definition match_here :: "bool \<Rightarrow> string \<Rightarrow> (string \<times> string \<times> string) option" where
  "match_here at_start s =
    (case (if at_start then match_kv s else None) of
       Some m \<Rightarrow> Some m
     | None \<Rightarrow>
        (case s of
           [] \<Rightarrow> None
         | c # cs \<Rightarrow> if is_space c then match_kv cs else None))"

lemma lazy_value_shorter: "lazy_value acc s = Some (v, rest) \<Longrightarrow> length rest < length s"
  by (induction acc s rule: lazy_value.induct) (auto split: if_splits)

lemma match_kv_shorter: "match_kv s = Some (k, v, rest) \<Longrightarrow> length rest < length s"
proof -
  assume m: "match_kv s = Some (k, v, rest)"
  then have "lazy_value [] (drop 2 (dropWhile is_word s)) = Some (v, rest)"
    by (auto simp: match_kv_def split: if_splits option.splits)
  then have "length rest < length (drop 2 (dropWhile is_word s))"
    by (rule lazy_value_shorter)
  also have "\<dots> \<le> length s"
    using length_dropWhile_le [of is_word s] by simp
  finally show ?thesis .
qed

lemma match_here_shorter: "match_here b s = Some (k, v, rest) \<Longrightarrow> length rest < length s"
  by (auto simp: match_here_def split: if_splits option.splits list.splits
      dest: match_kv_shorter)

text \<open>
  \<^verbatim>\<open>re.findall\<close>: the leftmost match from the current position, then on from the end
  of that match; where nothing matches, one character further.
\<close>

function findall_loop :: "bool \<Rightarrow> string \<Rightarrow> (string \<times> string) list" where
  "findall_loop at_start s =
    (case match_here at_start s of
       Some (key, v, rest) \<Rightarrow> (key, v) # findall_loop False rest
     | None \<Rightarrow>
        (case s of
           [] \<Rightarrow> []
         | c # cs \<Rightarrow> findall_loop False cs))"
  by pat_completeness auto
termination
  by (relation "measure (\<lambda>(b, s). length s)") (auto dest: match_here_shorter)

definition keys :: "(string \<times> string) list" where
  "keys = [(''title_f'', ''title''), (''title_p'', ''title''), (''locat'', ''file'')]"

definition info_defaults :: dict where
  "info_defaults =
    [(''title'', PStr ''''),
     (''desc'', PStr ''''),
     (''file'', PStr ''''),
     (''porter'', PStr ''''),
     (''opengl'', PBool False),
     (''power'', PBool False),
     (''rtr'', PBool False),
     (''genres'', PList [])]"

text \<open>The body of the loop over the matches, for one \<^verbatim>\<open>(key, value)\<close>.\<close>

definition parse_step :: "dict \<Rightarrow> string \<times> string \<Rightarrow> dict" where
  "parse_step info kv =
    (let key0 = lower (fst kv);
         info1 = (if key0 = ''title_f'' then dict_set info ''opengl'' (PBool True) else info);
         info2 = (if key0 = ''title_p'' then dict_set info1 ''power'' (PBool True) else info1);
         key = (case map_of keys key0 of None \<Rightarrow> key0 | Some k \<Rightarrow> k);
         value1 =
           (if key = ''title'' then replace ''_'' '' '' (take (length (snd kv) - 2) (snd kv))
            else snd kv);
         value2 =
           (if contains ''%20'' value1 then replace ''..'' ''.'' (replace ''%20'' ''.'' value1)
            else value1)
     in if key = ''runtype'' then dict_set info2 ''rtr'' (PBool True)
        else if key = ''genres'' then
          dict_set info2 ''genres'' (PList (map PStr (split_on CHR '','' value2)))
        else dict_set info2 key (PStr value2))"

definition parse_port_info :: "string \<Rightarrow> dict" where
  "parse_port_info line = foldl parse_step info_defaults (findall_loop True (strip line))"

section \<open>The source \<^verbatim>\<open>PortMasterV1\<close>\<close>

text \<open>
  The persisted document of a source and the manifest of the provider are JSON
  documents of a fixed shape; they are records here, so a document of another shape
  (on which the Python raises) is outside the model. The four parts of the cached
  payload are optional, since a new document has \<^verbatim>\<open>"data": {}\<close>. Timestamps are
  counts of microseconds, the resolution of \<^verbatim>\<open>datetime\<close>; the ISO text of
  \<^verbatim>\<open>last_checked\<close> is not modelled. A size is an int or \<^verbatim>\<open>null\<close>.
\<close>

record entry =
  entry_name :: string
  entry_size :: "int option"
  entry_url :: string

record asset =
  asset_name :: string
  asset_size :: "int option"
  browser_download_url :: string

record cache =
  cache_ports :: "string list option"
  cache_utils :: "string list option"
  cache_info :: "(string \<times> dict) list option"
  cache_data :: "(string \<times> entry) list option"

record config =
  cfg_prefix :: string
  cfg_api :: string
  cfg_name :: string
  cfg_url :: string
  cfg_last_checked :: "int option"
  cfg_version :: int
  cfg_data :: cache

text \<open>
  A path is a name or \<^verbatim>\<open>parent / name\<close>. A file holds a saved document or bytes.
\<close>

datatype path = Path string | Join path string

datatype contents = Document config | Bytes string

text \<open>
  What a call reads and changes outside the object: the answer of the network to a
  GET of a URL (status, text, decoded \<^verbatim>\<open>assets\<close>, the \<^verbatim>\<open>content-length\<close> header
  and the body as \<^verbatim>\<open>iter_content\<close> yields it), the clock, the files, and the list of
  the URLs requested so far. A transport failure, which \<^verbatim>\<open>requests\<close> raises, is
  not modelled: every request is answered with a status.
\<close>

record response =
  status_code :: int
  body_text :: string
  body_assets :: "asset list"
  content_length :: "int option"
  body_chunks :: "string list"

record world =
  http :: "string \<Rightarrow> response"
  now :: int
  files :: "path \<Rightarrow> contents option"
  requests :: "string list"

record source =
  hm_temp_dir :: path
  src_file_name :: path
  src_config :: config
  src_prefix :: string
  src_data :: "(string \<times> entry) list"
  src_info :: "(string \<times> dict) list"
  ports :: "string list"
  utils :: "string list"

definition VERSION :: int where
  "VERSION = 2"

definition UPDATE_FREQUENCY :: int where
  "UPDATE_FREQUENCY = 60 * 60 * 22"

definition fetch :: "world \<Rightarrow> string \<Rightarrow> world \<times> response option" where
  "fetch w url =
    (if status_code (http w url) \<noteq> 200 then (w\<lparr>requests := requests w @ [url]\<rparr>, None)
     else (w\<lparr>requests := requests w @ [url]\<rparr>, Some (http w url)))"

definition fetch_json :: "world \<Rightarrow> string \<Rightarrow> world \<times> asset list option" where
  "fetch_json w url =
    (case fetch w url of
       (w', None) \<Rightarrow> (w', None)
     | (w', Some r) \<Rightarrow> (w', Some (body_assets r)))"

definition fetch_text :: "world \<Rightarrow> string \<Rightarrow> world \<times> string option" where
  "fetch_text w url =
    (case fetch w url of
       (w', None) \<Rightarrow> (w', None)
     | (w', Some r) \<Rightarrow> (w', Some (body_text r)))"

text \<open>
  \<^verbatim>\<open>(time_b - time_a).seconds\<close>: a \<^verbatim>\<open>timedelta\<close> is normalised to days, seconds
  below 86400 and microseconds below a million, and \<^verbatim>\<open>.seconds\<close> is the middle
  part alone.
\<close>

definition datetime_compare :: "int \<Rightarrow> int \<Rightarrow> int" where
  "datetime_compare time_a time_b = ((time_b - time_a) div 1000000) mod 86400"

definition clean_name :: "string \<Rightarrow> string" where
  "clean_name s = lower s"

text \<open>The body of the loop over \<^verbatim>\<open>data['assets']\<close>.\<close>

definition asset_step :: "source \<Rightarrow> asset \<Rightarrow> source" where
  "asset_step s a =
    (let result = \<lparr>entry_name = asset_name a, entry_size = asset_size a,
                    entry_url = browser_download_url a\<rparr>;
         s1 = s\<lparr>src_data := AList.update (clean_name (asset_name a)) result (src_data s)\<rparr>
     in if endswith (lower (asset_name a)) ''.squashfs''
        then s1\<lparr>utils := utils s1 @ [clean_name (asset_name a)]\<rparr>
        else s1)"

text \<open>The loop over the lines of \<^verbatim>\<open>ports.md\<close>.\<close>

fun lines_loop :: "string list \<Rightarrow> source \<Rightarrow> source \<times> error option" where
  "lines_loop [] s = (s, None)"
| "lines_loop (line # rest) s =
    (if strip line = '''' then lines_loop rest s
     else case map_of (parse_port_info (strip line)) ''file'' of
       None \<Rightarrow> (s, Some (KeyError ''file''))
     | Some (PStr f) \<Rightarrow>
         lines_loop rest
           (s\<lparr>src_info := AList.update (clean_name f) (parse_port_info (strip line)) (src_info s),
              ports := ports s @ [clean_name f]\<rparr>)
     | Some v \<Rightarrow> (s, Some AttributeError))"

text \<open>
  \<^verbatim>\<open>update()\<close> changes the object and the files and may raise; the model returns
  the world and the object as the call leaves them, and the exception if there is
  one. The tables of the object are reset right after the first fetch, before its
  result is read: \<^verbatim>\<open>data['assets']\<close> on \<^verbatim>\<open>None\<close> is a \<^verbatim>\<open>TypeError\<close>, and
  \<^verbatim>\<open>.split\<close> on \<^verbatim>\<open>None\<close> an \<^verbatim>\<open>AttributeError\<close>. The document is changed and saved
  at the end only.
\<close>

definition update :: "world \<Rightarrow> source \<Rightarrow> world \<times> source \<times> error option" where
  "update w s =
    (case fetch_json w (cfg_url (src_config s)) of (w1, data) \<Rightarrow>
      (let s1 = s\<lparr>src_data := [], src_info := [], ports := [], utils := []\<rparr> in
       case data of
         None \<Rightarrow> (w1, s1, Some TypeError)
       | Some assets \<Rightarrow>
          (let s2 = foldl asset_step s1 assets in
           case map_of (src_data s2) ''ports.md'' of
             None \<Rightarrow> (w1, s2, Some (KeyError ''ports.md''))
           | Some e \<Rightarrow>
              (case fetch_text w1 (entry_url e) of
                 (w2, None) \<Rightarrow> (w2, s2, Some AttributeError)
               | (w2, Some txt) \<Rightarrow>
                  (case lines_loop (split_on CHR 0x0A txt) s2 of
                     (s3, Some err) \<Rightarrow> (w2, s3, Some err)
                   | (s3, None) \<Rightarrow>
                      (let cfg = (src_config s3)
                             \<lparr>cfg_version := VERSION,
                              cfg_data := \<lparr>cache_ports = Some (ports s3),
                                           cache_utils = Some (utils s3),
                                           cache_info = Some (src_info s3),
                                           cache_data = Some (src_data s3)\<rparr>,
                              cfg_last_checked := Some (now w2)\<rparr>
                       in (w2\<lparr>files := (files w2)(src_file_name s3 \<mapsto> Document cfg)\<rparr>,
                           s3\<lparr>src_config := cfg\<rparr>, None)))))))"

text \<open>
  \<^verbatim>\<open>__init__\<close>: an exception of \<^verbatim>\<open>update()\<close> leaves no object. On the last branch
  the four parts of the cached payload are read in the order \<^verbatim>\<open>data\<close>, \<^verbatim>\<open>info\<close>,
  \<^verbatim>\<open>ports\<close>, \<^verbatim>\<open>utils\<close>, and a missing one is a \<^verbatim>\<open>KeyError\<close>.
\<close>

definition blank_source :: "path \<Rightarrow> path \<Rightarrow> config \<Rightarrow> source" where
  "blank_source temp_dir file_name cfg =
    \<lparr>hm_temp_dir = temp_dir, src_file_name = file_name, src_config = cfg,
     src_prefix = cfg_prefix cfg, src_data = [], src_info = [], ports = [], utils = []\<rparr>"

definition run_update :: "world \<Rightarrow> source \<Rightarrow> world \<times> (error + source)" where
  "run_update w s =
    (case update w s of
       (w', s', None) \<Rightarrow> (w', Inr s')
     | (w', s', Some e) \<Rightarrow> (w', Inl e))"

definition load_cache :: "source \<Rightarrow> error + source" where
  "load_cache s =
    (case cache_data (cfg_data (src_config s)) of
       None \<Rightarrow> Inl (KeyError ''data'')
     | Some d \<Rightarrow>
    (case cache_info (cfg_data (src_config s)) of
       None \<Rightarrow> Inl (KeyError ''info'')
     | Some i \<Rightarrow>
    (case cache_ports (cfg_data (src_config s)) of
       None \<Rightarrow> Inl (KeyError ''ports'')
     | Some p \<Rightarrow>
    (case cache_utils (cfg_data (src_config s)) of
       None \<Rightarrow> Inl (KeyError ''utils'')
     | Some u \<Rightarrow> Inr (s\<lparr>src_data := d, src_info := i, ports := p, utils := u\<rparr>)))))"

definition init :: "world \<Rightarrow> path \<Rightarrow> path \<Rightarrow> config \<Rightarrow> world \<times> (error + source)" where
  "init w temp_dir file_name cfg =
    (if cfg_version cfg \<noteq> VERSION then run_update w (blank_source temp_dir file_name cfg)
     else case cfg_last_checked cfg of
       None \<Rightarrow> run_update w (blank_source temp_dir file_name cfg)
     | Some t \<Rightarrow>
         if datetime_compare t (now w) > UPDATE_FREQUENCY
         then run_update w (blank_source temp_dir file_name cfg)
         else (w, load_cache (blank_source temp_dir file_name cfg)))"

text \<open>\<^verbatim>\<open>port_info(port_name)\<close>: the \<^verbatim>\<open>assert\<close>, then the subscript.\<close>

definition port_info :: "source \<Rightarrow> string \<Rightarrow> error + dict" where
  "port_info s port_name =
    (if port_name \<in> set (ports s) then
       (case map_of (src_info s) port_name of
          None \<Rightarrow> Inl (KeyError port_name)
        | Some i \<Rightarrow> Inr i)
     else Inl AssertionError)"

text \<open>
  The arithmetic of the two progress messages of \<^verbatim>\<open>download\<close>. Both divide ints
  with \<^verbatim>\<open>/\<close>, which gives the float nearest to the quotient and raises
  \<^verbatim>\<open>OverflowError\<close> when that is beyond the largest float; the quotient rounds
  beyond it from \<open>2^1024 - 2^970\<close> on, halfway between the largest float and
  \<open>2^1024\<close>.
\<close>

definition true_div_overflows :: "int \<Rightarrow> int \<Rightarrow> bool" where
  "true_div_overflows n d = ((2 ^ 1024 - 2 ^ 970) * abs d \<le> abs n)"

text \<open>
  \<^verbatim>\<open>int(length / total_length * 50)\<close>, for a \<^verbatim>\<open>total_length\<close> other than zero,
  raises \<^verbatim>\<open>OverflowError\<close> when the division does or when the product is infinite
  (\<^verbatim>\<open>int\<close> of an infinite float). The least float whose product with 50 is infinite
  is \<open>5764607523034235 * 2^966\<close>, and the quotient rounds to it or beyond when it
  is greater than the midpoint below it, \<open>11529215046068469 * 2^965\<close> (at the
  midpoint itself it rounds down, to the float with the even mantissa).
\<close>

definition amount_bound :: int where
  "amount_bound = 11529215046068469 * 2 ^ 965"

definition amount_overflows :: "nat \<Rightarrow> int \<Rightarrow> bool" where
  "amount_overflows len total_length = (amount_bound * abs total_length < int len)"

text \<open>
  The loop of \<^verbatim>\<open>download\<close> over the chunks. Each pass feeds the digest, writes to
  the file, adds to \<^verbatim>\<open>length\<close> and then computes the length of the progress bar,
  \<^verbatim>\<open>int(length / total_length * 50)\<close>, which raises \<^verbatim>\<open>ZeroDivisionError\<close> when
  \<^verbatim>\<open>total_length\<close> is zero. The state is the bytes fed to the digest, the bytes in
  the file and \<^verbatim>\<open>length\<close>. The bar is then built by repeating a character; the
  memory that takes is not modelled.
\<close>

fun chunks_loop ::
  "int \<Rightarrow> string list \<Rightarrow> string \<times> string \<times> nat \<Rightarrow> (string \<times> string \<times> nat) \<times> error option" where
  "chunks_loop total_length [] st = (st, None)"
| "chunks_loop total_length (d # ds) (fed, written, len) =
    (if total_length = 0 then ((fed @ d, written @ d, len + length d), Some ZeroDivisionError)
     else if amount_overflows (len + length d) total_length
       then ((fed @ d, written @ d, len + length d), Some OverflowError)
     else chunks_loop total_length ds (fed @ d, written @ d, len + length d))"

text \<open>
  \<^verbatim>\<open>download(port_name)\<close>. \<^verbatim>\<open>hashlib.md5\<close> is the parameter \<open>md5_hexdigest\<close>, from the
  bytes fed to the digest to its hexadecimal text. The call returns the path,
  \<^verbatim>\<open>None\<close> (here \<open>Inr None\<close>), or raises. \<^verbatim>\<open>total_length\<close> is the
  \<^verbatim>\<open>content-length\<close> header read as an int, or without one the size in the catalog
  (a header that is not a number, at which \<^verbatim>\<open>int\<close> raises, is not modelled). Before the
  file is opened a message prints \<^verbatim>\<open>total_length / 1024 / 1024\<close>, which is a
  \<^verbatim>\<open>TypeError\<close> when the size is \<^verbatim>\<open>None\<close> and an \<^verbatim>\<open>OverflowError\<close> when the first
  division overflows. An exception inside the loop leaves the file with what was
  written; the file is removed only after the loop, when the digests differ.
\<close>

definition download ::
  "(string \<Rightarrow> string) \<Rightarrow> world \<Rightarrow> source \<Rightarrow> string \<Rightarrow> world \<times> (error + path option)" where
  "download md5_hexdigest w s port_name =
    (let zip_file = Join (hm_temp_dir s) port_name in
     case map_of (src_data s) (port_name @ ''.md5'') of
       None \<Rightarrow> (w, Inl (KeyError (port_name @ ''.md5'')))
     | Some e_md5 \<Rightarrow>
        (case fetch_text w (entry_url e_md5) of
           (w1, None) \<Rightarrow> (w1, Inr None)
         | (w1, Some md5_text) \<Rightarrow>
            (case map_of (src_data s) port_name of
               None \<Rightarrow> (w1, Inl (KeyError port_name))
             | Some e \<Rightarrow>
                (let r = http w1 (entry_url e);
                     w2 = w1\<lparr>requests := requests w1 @ [entry_url e]\<rparr>
                 in if status_code r \<noteq> 200 then (w2, Inr None)
                    else
                      (case (case content_length r of None \<Rightarrow> entry_size e | Some n \<Rightarrow> Some n) of
                         None \<Rightarrow> (w2, Inl TypeError)
                       | Some total_length \<Rightarrow>
                           if true_div_overflows total_length 1024 then (w2, Inl OverflowError)
                           else
                             (case chunks_loop total_length (body_chunks r) ([], [], 0) of
                                ((fed, written, len), Some err) \<Rightarrow>
                                  (w2\<lparr>files := (files w2)(zip_file \<mapsto> Bytes written)\<rparr>, Inl err)
                              | ((fed, written, len), None) \<Rightarrow>
                                  if md5_hexdigest fed \<noteq> strip md5_text
                                  then (w2\<lparr>files := (files w2)(zip_file := None)\<rparr>, Inr None)
                                  else (w2\<lparr>files := (files w2)(zip_file \<mapsto> Bytes written)\<rparr>,
                                        Inr (Some zip_file))))))))"

section \<open>Canonical records and their fields\<close>

text \<open>
  A canonical record, as \<^verbatim>\<open>port_info_load\<close> builds it: a dict with every root key
  of the schema, whose \<^verbatim>\<open>attr\<close> is a dict with every attr key of the schema.
\<close>

definition is_port_info :: "dict \<Rightarrow> bool" where
  "is_port_info p =
    (wf_dict p
     \<and> list_all (\<lambda>k. map_of p k \<noteq> None) (map fst PORT_INFO_ROOT_ATTRS)
     \<and> (case map_of p ''attr'' of
          Some (PDict attrs) \<Rightarrow>
            wf_dict attrs \<and> list_all (\<lambda>k. map_of attrs k \<noteq> None) (map fst PORT_INFO_ATTR_ATTRS)
        | v \<Rightarrow> False))"

text \<open>A field of a record: a root key, or a key of \<^verbatim>\<open>attr\<close>.\<close>

datatype field = Root string | Attr string

fun field_get :: "dict \<Rightarrow> field \<Rightarrow> pyval option" where
  "field_get p (Root k) = map_of p k"
| "field_get p (Attr k) =
    (case map_of p ''attr'' of
       Some (PDict attrs) \<Rightarrow> map_of attrs k
     | v \<Rightarrow> None)"

text \<open>
  The fields that \<^verbatim>\<open>port_info_merge\<close> visits: the root keys that come before
  \<^verbatim>\<open>'attr'\<close> in \<^verbatim>\<open>PORT_INFO_ROOT_ATTRS\<close>, where the first loop leaves, and every
  key of \<^verbatim>\<open>attr\<close>.
\<close>

fun merged_field :: "field \<Rightarrow> bool" where
  "merged_field (Root k) =
    (k \<in> set (takeWhile (\<lambda>attr. attr \<noteq> ''attr'') (map fst PORT_INFO_ROOT_ATTRS)))"
| "merged_field (Attr k) = True"

text \<open>
  The values a field has while nothing has filled it: \<^verbatim>\<open>None\<close>, the empty string,
  list and dict, and \<^verbatim>\<open>False\<close>.
\<close>

definition is_empty :: "pyval \<Rightarrow> bool" where
  "is_empty v = (v = PNone \<or> v = PStr '''' \<or> v = PList [] \<or> v = PDict [] \<or> v = PBool False)"

text \<open>
  Two records for the examples: what \<^verbatim>\<open>port_info_load\<close> returns for \<^verbatim>\<open>{}\<close>, and
  for \<^verbatim>\<open>{"name": "quake", "attr": {"title": "Quake", "rtr": true}}\<close>.
\<close>

definition blank_port :: dict where
  "blank_port =
    [(''version'', PInt 2),
     (''name'', PNone),
     (''items'', PNone),
     (''items_opt'', PNone),
     (''attr'', PDict
       [(''title'', PStr ''''),
        (''desc'', PStr ''''),
        (''inst'', PStr ''''),
        (''genres'', PList []),
        (''porter'', PStr ''''),
        (''image'', PDict []),
        (''rtr'', PBool False),
        (''runtime'', PNone),
        (''reqs'', PList [])]),
     (''status'', PNone),
     (''files'', PNone)]"

definition quake_port :: dict where
  "quake_port =
    [(''version'', PInt 2),
     (''name'', PStr ''quake''),
     (''items'', PNone),
     (''items_opt'', PNone),
     (''attr'', PDict
       [(''title'', PStr ''Quake''),
        (''rtr'', PBool True),
        (''desc'', PStr ''''),
        (''inst'', PStr ''''),
        (''genres'', PList []),
        (''porter'', PStr ''''),
        (''image'', PDict []),
        (''runtime'', PNone),
        (''reqs'', PList [])]),
     (''status'', PNone),
     (''files'', PNone)]"

text \<open>
  Two more records, with other values in the same fields: a second port, and the
  first one with a boolean for its \<^verbatim>\<open>status\<close>.
\<close>

definition doom_port :: dict where
  "doom_port =
    [(''version'', PInt 2),
     (''name'', PStr ''doom''),
     (''items'', PList [PStr ''doom/'']),
     (''items_opt'', PNone),
     (''attr'', PDict
       [(''title'', PStr ''Doom''),
        (''desc'', PStr ''A shooter''),
        (''inst'', PStr ''''),
        (''genres'', PList [PStr ''fps'']),
        (''porter'', PStr ''someone''),
        (''image'', PDict []),
        (''rtr'', PBool False),
        (''runtime'', PNone),
        (''reqs'', PList [])]),
     (''status'', PBool False),
     (''files'', PNone)]"

definition held_port :: dict where
  "held_port = dict_set quake_port ''status'' (PBool True)"

text \<open>
  The entries of \<^verbatim>\<open>items\<close> that none of the four tests of the loop in
  \<^verbatim>\<open>port_info_load\<close> rejects: a str that does not start with \<^verbatim>\<open>/\<close> or
  \<^verbatim>\<open>../\<close>, has no \<^verbatim>\<open>/../\<close> inside, and is not empty.
\<close>

definition safe_item :: "pyval \<Rightarrow> bool" where
  "safe_item v =
    (case v of
       PStr item \<Rightarrow>
         \<not> startswith item ''/'' \<and> \<not> startswith item ''../'' \<and> \<not> contains ''/../'' item
         \<and> item \<noteq> ''''
     | v \<Rightarrow> False)"

section \<open>A source for the examples\<close>

text \<open>
  A provider with one port, \<^verbatim>\<open>quake.zip\<close>, and its checksum file; a document that
  caches it, last checked at time 0; and the source object loaded from that cache.
\<close>

definition quake_entries :: "(string \<times> entry) list" where
  "quake_entries =
    [(''quake.zip'',
      \<lparr>entry_name = ''Quake.zip'', entry_size = Some 3, entry_url = ''http://host/Quake.zip''\<rparr>),
     (''quake.zip.md5'',
      \<lparr>entry_name = ''Quake.zip.md5'', entry_size = Some 33, entry_url = ''http://host/Quake.zip.md5''\<rparr>)]"

definition quake_info :: dict where
  "quake_info =
    [(''title'', PStr ''Quake''),
     (''desc'', PStr ''A game''),
     (''file'', PStr ''Quake.zip''),
     (''porter'', PStr ''''),
     (''opengl'', PBool False),
     (''power'', PBool False),
     (''rtr'', PBool False),
     (''genres'', PList [])]"

definition quake_cfg :: config where
  "quake_cfg =
    \<lparr>cfg_prefix = ''pm'', cfg_api = ''PortMasterV1'', cfg_name = ''PortMaster'',
     cfg_url = ''http://host/latest'', cfg_last_checked = Some 0, cfg_version = 2,
     cfg_data = \<lparr>cache_ports = Some [''quake.zip''], cache_utils = Some [],
                 cache_info = Some [(''quake.zip'', quake_info)],
                 cache_data = Some quake_entries\<rparr>\<rparr>"

definition quake_source :: source where
  "quake_source =
    \<lparr>hm_temp_dir = Path ''/tmp/hm'', src_file_name = Path ''config/000_portmaster.source.json'',
     src_config = quake_cfg, src_prefix = ''pm'', src_data = quake_entries,
     src_info = [(''quake.zip'', quake_info)], ports = [''quake.zip''], utils = []\<rparr>"

text \<open>A network on which every request fails, at time \<open>t\<close>.\<close>

definition not_found :: response where
  "not_found =
    \<lparr>status_code = 404, body_text = '''', body_assets = [], content_length = None,
     body_chunks = []\<rparr>"

definition offline :: "int \<Rightarrow> world" where
  "offline t = \<lparr>http = (\<lambda>url. not_found), now = t, files = Map.empty, requests = []\<rparr>"

text \<open>
  A network that serves the checksum file of \<^verbatim>\<open>Quake.zip\<close> and, as the body of
  \<^verbatim>\<open>Quake.zip\<close> itself, the given chunks; and a digest function that is MD5 on
  \<^verbatim>\<open>abc\<close>, on \<^verbatim>\<open>ab\<close> and on the empty string, the only inputs it is used on.
\<close>

definition serving :: "string list \<Rightarrow> world" where
  "serving chunks =
    \<lparr>http = (\<lambda>url.
        if url = ''http://host/Quake.zip.md5'' then
          \<lparr>status_code = 200, body_text = ''900150983cd24fb0d6963f7d28e17f72'' @ [CHR 0x0A],
           body_assets = [], content_length = None, body_chunks = []\<rparr>
        else if url = ''http://host/Quake.zip'' then
          \<lparr>status_code = 200, body_text = '''', body_assets = [], content_length = None,
           body_chunks = chunks\<rparr>
        else not_found),
     now = 0, files = Map.empty, requests = []\<rparr>"

definition toy_md5 :: "string \<Rightarrow> string" where
  "toy_md5 bytes =
    (if bytes = ''abc'' then ''900150983cd24fb0d6963f7d28e17f72''
     else if bytes = ''ab'' then ''187ef4436122d1cc2f40dc2b92f0eba0''
     else ''d41d8cd98f00b204e9800998ecf8427e'')"

text \<open>
  The same source with a catalog that gives the size of \<^verbatim>\<open>Quake.zip\<close> as 0.
\<close>

definition zero_size_source :: source where
  "zero_size_source =
    quake_source
      \<lparr>src_data :=
         [(''quake.zip'',
           \<lparr>entry_name = ''Quake.zip'', entry_size = Some 0, entry_url = ''http://host/Quake.zip''\<rparr>),
          (''quake.zip.md5'',
           \<lparr>entry_name = ''Quake.zip.md5'', entry_size = Some 33,
              entry_url = ''http://host/Quake.zip.md5''\<rparr>)]\<rparr>"

section \<open>The steps of \<^verbatim>\<open>update()\<close> that can fail\<close>



section \<open>Properties of \<^verbatim>\<open>port_info_load\<close>\<close>

text \<open>
  Claim C7. For the version-1 record
  \<^verbatim>\<open>{"version": 1, "source": "repo/Quake.zip", "md5": "abc123", "attr": {"runtime": "blank"}}\<close>
  \<^verbatim>\<open>port_info_load\<close> returns a record whose \<^verbatim>\<open>name\<close> is \<^verbatim>\<open>"Quake.zip"\<close>, the last
  segment of \<^verbatim>\<open>source\<close>, which is gone; whose \<^verbatim>\<open>status\<close> is a record holding the old
  top-level \<^verbatim>\<open>md5\<close>, \<^verbatim>\<open>"abc123"\<close>; whose \<^verbatim>\<open>attr.runtime\<close> is \<^verbatim>\<open>None\<close>; and whose
  \<^verbatim>\<open>version\<close> is 2. This holds whatever the table of genres is.
\<close>

theorem load_migrates_version_1:
  "port_info_load HM_GENRES
     (PDict [(''version'', PInt 1),
             (''source'', PStr ''repo/Quake.zip''),
             (''md5'', PStr ''abc123''),
             (''attr'', PDict [(''runtime'', PStr ''blank'')])])
   = Inr (PDict
       [(''version'', PInt 2),
        (''name'', PStr ''Quake.zip''),
        (''items'', PNone),
        (''items_opt'', PNone),
        (''attr'', PDict
          [(''runtime'', PNone),
           (''title'', PStr ''''),
           (''desc'', PStr ''''),
           (''inst'', PStr ''''),
           (''genres'', PList []),
           (''porter'', PStr ''''),
           (''image'', PDict []),
           (''rtr'', PBool False),
           (''reqs'', PList [])]),
        (''status'', PDict
          [(''source'', PStr ''Unknown''),
           (''md5'', PStr ''abc123''),
           (''status'', PStr ''Unknown'')]),
        (''files'', PNone)])"
  by (simp add: port_info_load_def load_dict_def migrate_def reqs_keys_def fill_root_def
      fill_attr_def dict_get_def dict_set_def PORT_INFO_ROOT_ATTRS_def PORT_INFO_ATTR_ATTRS_def
      rsplit_last_def)

text \<open>
  Claim C3 says that \<^verbatim>\<open>port_info_load\<close> drops every entry of \<^verbatim>\<open>items\<close> that has a
  leading \<^verbatim>\<open>/\<close>, a \<^verbatim>\<open>../\<close> segment or is empty. The loop deletes an empty entry
  and then still steps over the entry that took its place, so what follows an empty
  string is never looked at: from \<^verbatim>\<open>["", "/etc/passwd"]\<close> the loaded record keeps
  \<^verbatim>\<open>"/etc/passwd"\<close>.
\<close>

theorem load_keeps_path_after_empty_item:
  "port_info_load HM_GENRES (PDict [(''items'', PList [PStr '''', PStr ''/etc/passwd''])])
   = Inr (PDict
       [(''version'', PInt 2),
        (''name'', PNone),
        (''items'', PList [PStr ''/etc/passwd'']),
        (''items_opt'', PNone),
        (''attr'', PDict
          [(''title'', PStr ''''),
           (''desc'', PStr ''''),
           (''inst'', PStr ''''),
           (''genres'', PList []),
           (''porter'', PStr ''''),
           (''image'', PDict []),
           (''rtr'', PBool False),
           (''runtime'', PNone),
           (''reqs'', PList [])]),
        (''status'', PNone),
        (''files'', PNone)])"
  by (simp add: port_info_load_def load_dict_def migrate_def reqs_keys_def fill_root_def
      fill_attr_def dict_get_def dict_set_def PORT_INFO_ROOT_ATTRS_def PORT_INFO_ATTR_ATTRS_def
      startswith_def del_at_def)

text \<open>
  The lists of one entry that the claim names do come out as it says: each of the
  four bad entries is dropped, and the relative path is kept.
\<close>

lemma items_loop_single_entries:
  "items_loop 0 [PStr ''/etc/passwd''] = Inr []"
  "items_loop 0 [PStr ''../secret''] = Inr []"
  "items_loop 0 [PStr ''a/../b''] = Inr []"
  "items_loop 0 [PStr ''''] = Inr []"
  "items_loop 0 [PStr ''sub/dir/file.txt''] = Inr [PStr ''sub/dir/file.txt'']"
  by (simp_all add: startswith_def del_at_def)

text \<open>
  And as long as no entry is the empty string, the loop keeps exactly the entries
  that pass its tests, in their order.
\<close>

lemma del_at_take: "i < length xs \<Longrightarrow> take i (del_at i xs) = take i xs"
  by (simp add: del_at_def)

lemma del_at_drop: "i < length xs \<Longrightarrow> drop i (del_at i xs) = drop (Suc i) xs"
  by (simp add: del_at_def)

lemma items_loop_without_empty:
  assumes "\<forall>x \<in> set (drop i items). is_str x \<and> x \<noteq> PStr ''''"
  shows "items_loop i items = Inr (take i items @ filter safe_item (drop i items))"
  using assms
proof (induction i items rule: items_loop.induct)
  case (1 i items)
  show ?case
  proof (cases "i < length items")
    case False
    then show ?thesis by simp
  next
    case True
    then have d: "drop i items = items ! i # drop (Suc i) items"
      by (simp add: Cons_nth_drop_Suc)
    with "1.prems" obtain item where item: "items ! i = PStr item" and ne: "item \<noteq> ''''"
      by (cases "items ! i") auto
    have rest: "\<forall>x \<in> set (drop (Suc i) items). is_str x \<and> x \<noteq> PStr ''''"
      using "1.prems" d by simp
    have rest': "\<forall>x \<in> set (drop i (del_at i items)). is_str x \<and> x \<noteq> PStr ''''"
      using rest True by (simp add: del_at_drop)
    show ?thesis
    proof (cases "safe_item (PStr item)")
      case True
      then have t: "\<not> startswith item ''/''" "\<not> startswith item ''../''" "\<not> contains ''/../'' item"
        by (simp_all add: safe_item_def)
      have "items_loop (i + 1) items = Inr (take (i + 1) items @ filter safe_item (drop (i + 1) items))"
        using "1.IH"(5) [OF \<open>i < length items\<close> item t ne] rest by simp
      then show ?thesis
        using \<open>i < length items\<close> item t ne True d
        by (simp add: take_Suc_conv_app_nth)
    next
      case False
      have step: "items_loop i (del_at i items) = Inr (take i items @ filter safe_item (drop (Suc i) items))"
      proof (cases "startswith item ''/''")
        case True
        from "1.IH"(1) [OF \<open>i < length items\<close> item True rest'] show ?thesis
          using \<open>i < length items\<close> by (simp add: del_at_take del_at_drop)
      next
        case a: False
        show ?thesis
        proof (cases "startswith item ''../''")
          case True
          from "1.IH"(2) [OF \<open>i < length items\<close> item a True rest'] show ?thesis
            using \<open>i < length items\<close> by (simp add: del_at_take del_at_drop)
        next
          case b: False
          with a False ne have c: "contains ''/../'' item"
            by (simp add: safe_item_def)
          from "1.IH"(3) [OF \<open>i < length items\<close> item a b c rest'] show ?thesis
            using \<open>i < length items\<close> by (simp add: del_at_take del_at_drop)
        qed
      qed
      have "items_loop i items = items_loop i (del_at i items)"
        using \<open>i < length items\<close> item False ne
        by (subst items_loop.simps) (auto simp: safe_item_def)
      with step show ?thesis
        using False item d by simp
    qed
  qed
qed

lemma items_loop_filters:
  assumes "\<forall>x \<in> set items. is_str x \<and> x \<noteq> PStr ''''"
  shows "items_loop 0 items = Inr (filter safe_item items)"
  using items_loop_without_empty [of 0 items] assms by simp

section \<open>Properties of \<^verbatim>\<open>_parse_port_info\<close>\<close>

text \<open>
  Claim C6. The line \<^verbatim>\<open>Title_F="Half_Life ." Desc="A game" locat="halflife.zip"\<close>
  parses to a record with title \<^verbatim>\<open>"Half Life"\<close> (the last two characters of the value
  cut off, the underscore turned into a blank), \<^verbatim>\<open>opengl\<close> true (set by the key
  \<^verbatim>\<open>title_f\<close>, which is read as \<^verbatim>\<open>title\<close>), desc \<^verbatim>\<open>"A game"\<close> and file
  \<^verbatim>\<open>"halflife.zip"\<close> (the key \<^verbatim>\<open>locat\<close> is read as \<^verbatim>\<open>file\<close>); the other fields keep
  their defaults.
\<close>

theorem parse_half_life_line:
  \<open>parse_port_info ''Title_F="Half_Life ." Desc="A game" locat="halflife.zip"''
   = [(''title'', PStr ''Half Life''),
      (''desc'', PStr ''A game''),
      (''file'', PStr ''halflife.zip''),
      (''porter'', PStr ''''),
      (''opengl'', PBool True),
      (''power'', PBool False),
      (''rtr'', PBool False),
      (''genres'', PList [])]\<close>
  by code_simp

section \<open>Properties of \<^verbatim>\<open>port_info_merge\<close>\<close>

lemma load_blank_port: "port_info_load HM_GENRES (PDict []) = Inr (PDict blank_port)"
  by (simp add: port_info_load_def load_dict_def migrate_def reqs_keys_def fill_root_def
      fill_attr_def dict_get_def dict_set_def PORT_INFO_ROOT_ATTRS_def PORT_INFO_ATTR_ATTRS_def
      blank_port_def)

lemma load_quake_port:
  "port_info_load HM_GENRES
     (PDict [(''name'', PStr ''quake''),
             (''attr'', PDict [(''title'', PStr ''Quake''), (''rtr'', PBool True)])])
   = Inr (PDict quake_port)"
  by (simp add: port_info_load_def load_dict_def migrate_def reqs_keys_def fill_root_def
      fill_attr_def dict_get_def dict_set_def PORT_INFO_ROOT_ATTRS_def PORT_INFO_ATTR_ATTRS_def
      quake_port_def)

lemma is_port_info_blank_port: "is_port_info blank_port"
  by (simp add: is_port_info_def wf_dict_def blank_port_def PORT_INFO_ROOT_ATTRS_def
      PORT_INFO_ATTR_ATTRS_def)

lemma is_port_info_quake_port: "is_port_info quake_port"
  by (simp add: is_port_info_def wf_dict_def quake_port_def PORT_INFO_ROOT_ATTRS_def
      PORT_INFO_ATTR_ATTRS_def)

subsection \<open>What one pass changes\<close>

lemma map_of_dict_set: "map_of (dict_set d k v) k' = (if k' = k then Some v else map_of d k')"
  by (simp add: dict_set_def update_conv')

lemma dict_set_same: "map_of d k = Some v \<Longrightarrow> dict_set d k v = d"
  by (simp add: dict_set_def update_triv)

lemma merge_root_step_other:
  "k \<noteq> attr \<Longrightarrow> map_of (merge_root_step p attr a b) k = map_of p k"
  by (simp add: merge_root_step_def map_of_dict_set)

lemma merge_root_step_present:
  "map_of p attr = Some a \<Longrightarrow>
   (map_of (merge_root_step p attr a b) k = None) = (map_of p k = None)"
  by (simp add: merge_root_step_def map_of_dict_set)

lemma merge_root_step_same: "map_of p attr = Some a \<Longrightarrow> merge_root_step p attr a a = p"
  by (simp add: merge_root_step_def dict_set_same)

lemma merge_root_step_keeps:
  assumes "\<not> is_empty a" and "\<not> (in_true_false a \<and> in_true_false b)"
  shows "merge_root_step p attr a b = p"
  using assms by (auto simp: merge_root_step_def is_empty_def)

lemma merge_attr_step_other:
  "k \<noteq> key_b \<Longrightarrow> map_of (merge_attr_step attrs key_b a b) k = map_of attrs k"
  by (simp add: merge_attr_step_def map_of_dict_set)

lemma merge_attr_step_same:
  "map_of attrs key_b = Some a \<Longrightarrow> merge_attr_step attrs key_b a a = attrs"
  by (simp add: merge_attr_step_def dict_set_same)

lemma merge_attr_step_keeps:
  assumes "\<not> is_empty a" and "\<not> (in_true_false a \<and> in_true_false b)"
  shows "merge_attr_step attrs key_b a b = attrs"
  using assms by (auto simp: merge_attr_step_def is_empty_def)

subsection \<open>The first loop\<close>

text \<open>The loop writes only the keys it visits, and it stops at \<^verbatim>\<open>'attr'\<close>.\<close>

lemma merge_root_loop_frame:
  "k \<notin> set (takeWhile (\<lambda>a. a \<noteq> ''attr'') ks) \<Longrightarrow>
   map_of (fst (merge_root_loop ks p other)) k = map_of p k"
proof (induction ks arbitrary: p)
  case Nil
  show ?case by simp
next
  case (Cons attr rest)
  show ?case
  proof (cases "attr = ''attr''")
    case True
    then show ?thesis by simp
  next
    case False
    with Cons.prems have k: "k \<noteq> attr" and rest: "k \<notin> set (takeWhile (\<lambda>a. a \<noteq> ''attr'') rest)"
      by auto
    show ?thesis
      using False k Cons.IH [OF rest]
      by (auto simp: merge_root_step_other split: option.splits)
  qed
qed

lemma merge_root_loop_ok:
  assumes "\<forall>k \<in> set ks. map_of p k \<noteq> None \<and> map_of other k \<noteq> None"
  shows "snd (merge_root_loop ks p other) = None"
  using assms
proof (induction ks arbitrary: p)
  case Nil
  show ?case by simp
next
  case (Cons attr rest)
  from Cons.prems obtain a b where a: "map_of p attr = Some a" and b: "map_of other attr = Some b"
    by auto
  have "\<forall>k \<in> set rest. map_of (merge_root_step p attr a b) k \<noteq> None \<and> map_of other k \<noteq> None"
    using Cons.prems a by (simp add: merge_root_step_present)
  then have "snd (merge_root_loop rest (merge_root_step p attr a b) other) = None"
    by (rule Cons.IH)
  then show ?case using a b by simp
qed

lemma merge_root_loop_keeps:
  assumes "map_of p k = Some a" and "\<not> is_empty a"
    and "\<not> (in_true_false a \<and> (\<exists>b. map_of other k = Some b \<and> in_true_false b))"
  shows "map_of (fst (merge_root_loop ks p other)) k = Some a"
  using assms(1)
proof (induction ks arbitrary: p)
  case Nil
  then show ?case by simp
next
  case (Cons attr rest)
  show ?case
  proof (cases "attr = ''attr'' \<or> map_of p attr = None \<or> map_of other attr = None")
    case True
    then show ?thesis using Cons.prems by (auto split: option.splits)
  next
    case False
    then obtain a' b' where a': "map_of p attr = Some a'" and b': "map_of other attr = Some b'"
      and na: "attr \<noteq> ''attr''"
      by auto
    have "map_of (merge_root_step p attr a' b') k = Some a"
    proof (cases "k = attr")
      case True
      with a' Cons.prems have "a' = a" by simp
      moreover have "\<not> (in_true_false a \<and> in_true_false b')"
        using assms(3) b' True by auto
      ultimately show ?thesis
        using assms(2) Cons.prems by (simp add: merge_root_step_keeps)
    next
      case False
      then show ?thesis using Cons.prems by (simp add: merge_root_step_other)
    qed
    then have "map_of (fst (merge_root_loop rest (merge_root_step p attr a' b') other)) k = Some a"
      by (rule Cons.IH)
    then show ?thesis using a' b' na by simp
  qed
qed

lemma merge_root_loop_self:
  assumes "\<forall>k \<in> set ks. map_of p k \<noteq> None"
  shows "merge_root_loop ks p p = (p, None)"
  using assms
proof (induction ks)
  case Nil
  show ?case by simp
next
  case (Cons attr rest)
  from Cons.prems obtain a where a: "map_of p attr = Some a"
    by auto
  have "merge_root_loop rest p p = (p, None)"
    using Cons by simp
  then show ?case using a by (simp add: merge_root_step_same)
qed

subsection \<open>The second loop\<close>

lemma merge_attr_loop_frame:
  "k \<noteq> ''attr'' \<Longrightarrow> map_of (fst (merge_attr_loop other_attrs p)) k = map_of p k"
proof (induction other_attrs p rule: merge_attr_loop.induct)
  case (1 p)
  show ?case by simp
next
  case (2 key_b value_b rest p)
  then show ?case
    by (auto simp: map_of_dict_set split: option.splits pyval.splits)
qed

lemma merge_attr_loop_ok:
  assumes "map_of p ''attr'' = Some (PDict attrs)"
  shows "snd (merge_attr_loop other_attrs p) = None"
  using assms
proof (induction other_attrs arbitrary: p attrs)
  case Nil
  show ?case by simp
next
  case (Cons kv rest)
  obtain key_b value_b where kv: "kv = (key_b, value_b)"
    by (cases kv)
  show ?case
  proof (cases "map_of attrs key_b")
    case None
    then show ?thesis
      using Cons.IH [OF Cons.prems] Cons.prems kv by simp
  next
    case (Some value_a)
    let ?p = "dict_set p ''attr'' (PDict (merge_attr_step attrs key_b value_a value_b))"
    have "map_of ?p ''attr'' = Some (PDict (merge_attr_step attrs key_b value_a value_b))"
      by (simp add: map_of_dict_set)
    then have "snd (merge_attr_loop rest ?p) = None"
      by (rule Cons.IH)
    then show ?thesis
      using Cons.prems Some kv by simp
  qed
qed

lemma merge_attr_loop_keeps:
  assumes "map_of p ''attr'' = Some (PDict attrs)"
    and "map_of attrs k = Some a"
    and "\<not> is_empty a"
    and "\<forall>b. (k, b) \<in> set other_attrs \<longrightarrow> \<not> (in_true_false a \<and> in_true_false b)"
  shows "\<exists>attrs'. map_of (fst (merge_attr_loop other_attrs p)) ''attr'' = Some (PDict attrs')
           \<and> map_of attrs' k = Some a"
  using assms(1,2,4)
proof (induction other_attrs arbitrary: p attrs)
  case Nil
  then show ?case by simp
next
  case (Cons kv rest)
  obtain key_b value_b where kv: "kv = (key_b, value_b)"
    by (cases kv)
  have rest: "\<forall>b. (k, b) \<in> set rest \<longrightarrow> \<not> (in_true_false a \<and> in_true_false b)"
    using Cons.prems(3) by auto
  show ?case
  proof (cases "map_of attrs key_b")
    case None
    then show ?thesis
      using Cons.IH [OF Cons.prems(1,2) rest] Cons.prems(1) kv by simp
  next
    case (Some value_a)
    let ?attrs = "merge_attr_step attrs key_b value_a value_b"
    let ?p = "dict_set p ''attr'' (PDict ?attrs)"
    have same: "map_of ?attrs k = Some a"
    proof (cases "k = key_b")
      case False
      then show ?thesis using Cons.prems(2) by (simp add: merge_attr_step_other)
    next
      case True
      with Some Cons.prems(2) have "value_a = a"
        by simp
      moreover have "\<not> (in_true_false a \<and> in_true_false value_b)"
        using Cons.prems(3) kv True by auto
      ultimately show ?thesis
        using assms(3) Cons.prems(2) by (simp add: merge_attr_step_keeps)
    qed
    have p: "map_of ?p ''attr'' = Some (PDict ?attrs)"
      by (simp add: map_of_dict_set)
    from Cons.IH [OF p same rest] show ?thesis
      using Cons.prems(1) Some kv by simp
  qed
qed

lemma merge_attr_loop_self:
  assumes "map_of p ''attr'' = Some (PDict attrs)"
    and "\<forall>(k, v) \<in> set other_attrs. map_of attrs k = Some v"
  shows "merge_attr_loop other_attrs p = (p, None)"
  using assms(2)
proof (induction other_attrs)
  case Nil
  show ?case by simp
next
  case (Cons kv rest)
  obtain key_b value_b where kv: "kv = (key_b, value_b)"
    by (cases kv)
  with Cons.prems have v: "map_of attrs key_b = Some value_b"
    by simp
  have "dict_set p ''attr'' (PDict (merge_attr_step attrs key_b value_b value_b)) = p"
    using v assms(1) by (simp add: merge_attr_step_same dict_set_same)
  moreover have "merge_attr_loop rest p = (p, None)"
    using Cons by simp
  ultimately show ?case using kv v assms(1) by simp
qed

lemma root_keys: "map fst PORT_INFO_ROOT_ATTRS =
    [''version'', ''name'', ''items'', ''items_opt'', ''attr'', ''status'', ''files'']"
  by (simp add: PORT_INFO_ROOT_ATTRS_def)

lemma is_port_info_root:
  assumes "is_port_info p"
  shows "\<forall>k \<in> set [''version'', ''name'', ''items'', ''items_opt'']. map_of p k \<noteq> None"
  using assms by (simp add: is_port_info_def root_keys)

lemma is_port_info_attr:
  assumes "is_port_info p"
  obtains attrs where "map_of p ''attr'' = Some (PDict attrs)" and "wf_dict attrs"
  using assms by (auto simp: is_port_info_def split: option.splits pyval.splits)

subsection \<open>Booleans on both sides\<close>

lemma merge_root_step_overwrites:
  assumes "in_true_false a" and "in_true_false b"
  shows "merge_root_step p attr a b = dict_set p attr b"
  using assms by (cases a) (simp_all add: merge_root_step_def)

lemma merge_attr_step_overwrites:
  assumes "in_true_false a" and "in_true_false b"
  shows "merge_attr_step attrs key_b a b = dict_set attrs key_b b"
  using assms by (simp add: merge_attr_step_def)

lemma merge_root_loop_overwrites:
  assumes "\<forall>k' \<in> set ks. map_of p k' \<noteq> None \<and> map_of other k' \<noteq> None"
    and "k \<in> set (takeWhile (\<lambda>attr. attr \<noteq> ''attr'') ks)"
    and "map_of p k = Some a" and "in_true_false a"
    and "map_of other k = Some b" and "in_true_false b"
  shows "map_of (fst (merge_root_loop ks p other)) k = Some b"
  using assms(1-4)
proof (induction ks arbitrary: p a)
  case Nil
  then show ?case by simp
next
  case (Cons attr rest)
  from Cons.prems(2) have na: "attr \<noteq> ''attr''"
    by (cases "attr = ''attr''") simp_all
  from Cons.prems(1) obtain a' b'
    where a': "map_of p attr = Some a'" and b': "map_of other attr = Some b'"
    by auto
  let ?p = "merge_root_step p attr a' b'"
  have present: "\<forall>k' \<in> set rest. map_of ?p k' \<noteq> None \<and> map_of other k' \<noteq> None"
    using Cons.prems(1) a' by (simp add: merge_root_step_present)
  have "map_of (fst (merge_root_loop rest ?p other)) k = Some b"
  proof (cases "k = attr")
    case True
    with a' b' Cons.prems(3) assms(5) have "a' = a" and "b' = b"
      by simp_all
    then have "?p = dict_set p attr b"
      using Cons.prems(4) assms(6) by (simp add: merge_root_step_overwrites)
    with True have set: "map_of ?p k = Some b"
      by (simp add: map_of_dict_set)
    show ?thesis
    proof (cases "k \<in> set (takeWhile (\<lambda>attr. attr \<noteq> ''attr'') rest)")
      case True
      from Cons.IH [OF present True set assms(6)] show ?thesis .
    next
      case False
      then have "map_of (fst (merge_root_loop rest ?p other)) k = map_of ?p k"
        by (rule merge_root_loop_frame)
      with set show ?thesis by simp
    qed
  next
    case False
    then have "map_of ?p k = Some a"
      using Cons.prems(3) by (simp add: merge_root_step_other)
    moreover have "k \<in> set (takeWhile (\<lambda>attr. attr \<noteq> ''attr'') rest)"
      using Cons.prems(2) False na by simp
    ultimately show ?thesis
      using Cons.IH [OF present _ _ Cons.prems(4)] by blast
  qed
  then show ?case using a' b' na by simp
qed

lemma merge_attr_loop_untouched:
  assumes "map_of p ''attr'' = Some (PDict attrs)" and "k \<notin> fst ` set other_attrs"
  shows "\<exists>attrs'. map_of (fst (merge_attr_loop other_attrs p)) ''attr'' = Some (PDict attrs')
           \<and> map_of attrs' k = map_of attrs k"
  using assms
proof (induction other_attrs arbitrary: p attrs)
  case Nil
  then show ?case by simp
next
  case (Cons kv rest)
  obtain key_b value_b where kv: "kv = (key_b, value_b)"
    by (cases kv)
  with Cons.prems(2) have ne: "k \<noteq> key_b" and rest: "k \<notin> fst ` set rest"
    by auto
  show ?case
  proof (cases "map_of attrs key_b")
    case None
    then show ?thesis
      using Cons.IH [OF Cons.prems(1) rest] Cons.prems(1) kv by simp
  next
    case (Some value_a)
    let ?attrs = "merge_attr_step attrs key_b value_a value_b"
    let ?p = "dict_set p ''attr'' (PDict ?attrs)"
    have p: "map_of ?p ''attr'' = Some (PDict ?attrs)"
      by (simp add: map_of_dict_set)
    have "map_of ?attrs k = map_of attrs k"
      using ne by (simp add: merge_attr_step_other)
    with Cons.IH [OF p rest] show ?thesis
      using Cons.prems(1) Some kv by simp
  qed
qed

lemma merge_attr_loop_overwrites:
  assumes "map_of p ''attr'' = Some (PDict attrs)"
    and "map_of attrs k = Some a" and "in_true_false a"
    and "distinct (map fst other_attrs)" and "(k, b) \<in> set other_attrs"
    and "in_true_false b"
  shows "\<exists>attrs'. map_of (fst (merge_attr_loop other_attrs p)) ''attr'' = Some (PDict attrs')
           \<and> map_of attrs' k = Some b"
  using assms(1,2,4,5)
proof (induction other_attrs arbitrary: p attrs)
  case Nil
  then show ?case by simp
next
  case (Cons kv rest)
  obtain key_b value_b where kv: "kv = (key_b, value_b)"
    by (cases kv)
  from Cons.prems(3) kv have fresh: "key_b \<notin> fst ` set rest" and distinct: "distinct (map fst rest)"
    by simp_all
  show ?case
  proof (cases "key_b = k")
    case True
    with Cons.prems(4) kv fresh have b: "value_b = b"
      by (auto simp: image_iff)
    let ?attrs = "merge_attr_step attrs k a b"
    let ?p = "dict_set p ''attr'' (PDict ?attrs)"
    have p: "map_of ?p ''attr'' = Some (PDict ?attrs)"
      by (simp add: map_of_dict_set)
    have "map_of ?attrs k = Some b"
      using assms(3,6) by (simp add: merge_attr_step_overwrites map_of_dict_set)
    moreover from fresh True have "k \<notin> fst ` set rest"
      by simp
    ultimately have "\<exists>attrs'. map_of (fst (merge_attr_loop rest ?p)) ''attr'' = Some (PDict attrs')
           \<and> map_of attrs' k = Some b"
      using merge_attr_loop_untouched [OF p, of k rest] by simp
    then show ?thesis
      using Cons.prems(1,2) kv True b by simp
  next
    case False
    with Cons.prems(4) kv have rest: "(k, b) \<in> set rest"
      by auto
    show ?thesis
    proof (cases "map_of attrs key_b")
      case None
      then show ?thesis
        using Cons.IH [OF Cons.prems(1,2) distinct rest] Cons.prems(1) kv by simp
    next
      case (Some value_a)
      let ?attrs = "merge_attr_step attrs key_b value_a value_b"
      let ?p = "dict_set p ''attr'' (PDict ?attrs)"
      have p: "map_of ?p ''attr'' = Some (PDict ?attrs)"
        by (simp add: map_of_dict_set)
      have "map_of ?attrs k = Some a"
        using False Cons.prems(2) by (simp add: merge_attr_step_other)
      from Cons.IH [OF p this distinct rest] show ?thesis
        using Cons.prems(1) Some kv by simp
    qed
  qed
qed

lemma is_port_info_doom_port: "is_port_info doom_port"
  by (simp add: is_port_info_def wf_dict_def doom_port_def PORT_INFO_ROOT_ATTRS_def
      PORT_INFO_ATTR_ATTRS_def)

lemma is_port_info_held_port: "is_port_info held_port"
  by (simp add: is_port_info_def wf_dict_def held_port_def quake_port_def dict_set_def
      PORT_INFO_ROOT_ATTRS_def PORT_INFO_ATTR_ATTRS_def)


subsection \<open>The whole merge\<close>

lemma port_info_merge_frame:
  assumes "k \<notin> {''version'', ''name'', ''items'', ''items_opt'', ''attr''}"
  shows "map_of (fst (port_info_merge base other)) k = map_of base k"
proof (cases other)
  case (PDict other_info)
  obtain p1 e1 where r: "merge_root_loop (map fst PORT_INFO_ROOT_ATTRS) base other_info = (p1, e1)"
    by (cases "merge_root_loop (map fst PORT_INFO_ROOT_ATTRS) base other_info")
  have "map_of (fst (merge_root_loop (map fst PORT_INFO_ROOT_ATTRS) base other_info)) k = map_of base k"
    using assms by (intro merge_root_loop_frame) (simp add: root_keys)
  with r have p1: "map_of p1 k = map_of base k"
    by simp
  have p2: "map_of p2 k = map_of base k"
    if "merge_attr_loop other_attrs p1 = (p2, e2)" for other_attrs p2 e2
  proof -
    have "map_of (fst (merge_attr_loop other_attrs p1)) k = map_of p1 k"
      using assms by (intro merge_attr_loop_frame) simp
    with that p1 show ?thesis
      by simp
  qed
  show ?thesis
    using PDict r p1
    by (auto simp: port_info_merge_def split: option.splits pyval.splits prod.splits intro: p2)
qed (simp_all add: port_info_merge_def)

text \<open>
  Claim C10. \<^verbatim>\<open>port_info_merge(base, other)\<close> leaves the root fields \<^verbatim>\<open>status\<close> and
  \<^verbatim>\<open>files\<close> of \<^verbatim>\<open>base\<close> as they were, whatever \<^verbatim>\<open>base\<close> and \<^verbatim>\<open>other\<close> hold
  (also when \<^verbatim>\<open>base\<close> has \<^verbatim>\<open>None\<close> there and \<^verbatim>\<open>other\<close> a value), and whether the call
  returns or raises: the first loop leaves at \<^verbatim>\<open>'attr'\<close>, before it reaches them.
\<close>

theorem merge_leaves_status_and_files:
  "map_of (fst (port_info_merge base other)) ''status'' = map_of base ''status''
   \<and> map_of (fst (port_info_merge base other)) ''files'' = map_of base ''files''"
  by (simp add: port_info_merge_frame)

lemma merge_fills_name_not_status:
  "fst (port_info_merge blank_port (PDict (dict_set (dict_set quake_port ''status'' (PStr ''ok'')) ''files'' (PList [PStr ''a'']))))
   = dict_set (dict_set blank_port ''name'' (PStr ''quake''))
       ''attr'' (PDict
         [(''title'', PStr ''Quake''),
          (''desc'', PStr ''''),
          (''inst'', PStr ''''),
          (''genres'', PList []),
          (''porter'', PStr ''''),
          (''image'', PDict []),
          (''rtr'', PBool True),
          (''runtime'', PNone),
          (''reqs'', PList [])])"
  by (simp add: port_info_merge_def blank_port_def quake_port_def PORT_INFO_ROOT_ATTRS_def
      merge_root_step_def merge_attr_step_def dict_set_def)

text \<open>
  Claim C5. For every canonical record \<open>r\<close>, \<^verbatim>\<open>port_info_merge(r, r)\<close> returns \<open>r\<close>
  and leaves \<open>r\<close> as it was: every root field and every attr field is unchanged.
  (When both arguments are the same object, each write stores the value that was
  read from that very key, so the run is the one modelled here.)
\<close>

theorem merge_idempotent:
  assumes "is_port_info r"
  shows "port_info_merge r (PDict r) = (r, Inr (PDict r))"
proof -
  have "\<forall>k \<in> set (map fst PORT_INFO_ROOT_ATTRS). map_of r k \<noteq> None"
    using assms by (simp add: is_port_info_def list_all_iff)
  then have root: "merge_root_loop (map fst PORT_INFO_ROOT_ATTRS) r r = (r, None)"
    by (rule merge_root_loop_self)
  from assms obtain attrs where attrs: "map_of r ''attr'' = Some (PDict attrs)" and wf: "wf_dict attrs"
    by (rule is_port_info_attr)
  have "\<forall>(k, v) \<in> set attrs. map_of attrs k = Some v"
    using wf by (auto simp: wf_dict_def)
  with attrs have "merge_attr_loop attrs r = (r, None)"
    by (rule merge_attr_loop_self)
  with root attrs show ?thesis
    by (simp add: port_info_merge_def)
qed

theorem merge_idempotent_witness:
  "is_port_info quake_port
   \<and> port_info_merge quake_port (PDict quake_port) = (quake_port, Inr (PDict quake_port))"
  using merge_idempotent [OF is_port_info_quake_port] is_port_info_quake_port by simp

text \<open>
  Claim C2 says that a field of \<^verbatim>\<open>base\<close> that is not at its empty value is the same
  after \<^verbatim>\<open>port_info_merge(base, other)\<close>, whatever \<^verbatim>\<open>other\<close> holds. A boolean is
  an exception: \<^verbatim>\<open>attr.rtr\<close> is \<^verbatim>\<open>True\<close> in the first record below and \<^verbatim>\<open>False\<close> in
  the second, and after the merge it is \<^verbatim>\<open>False\<close> in the first.
\<close>

theorem merge_overwrites_true_by_false:
  "is_port_info quake_port
   \<and> is_port_info blank_port
   \<and> field_get quake_port (Attr ''rtr'') = Some (PBool True)
   \<and> \<not> is_empty (PBool True)
   \<and> field_get (fst (port_info_merge quake_port (PDict blank_port))) (Attr ''rtr'')
       = Some (PBool False)"
proof -
  have "field_get (fst (port_info_merge quake_port (PDict blank_port))) (Attr ''rtr'')
       = Some (PBool False)"
    by (simp add: port_info_merge_def blank_port_def quake_port_def PORT_INFO_ROOT_ATTRS_def
        merge_root_step_def merge_attr_step_def dict_set_def)
  moreover have "field_get quake_port (Attr ''rtr'') = Some (PBool True)"
    by (simp add: quake_port_def)
  ultimately show ?thesis
    using is_port_info_quake_port is_port_info_blank_port by (simp add: is_empty_def)
qed

text \<open>
  Claim C2, amended. For canonical records \<^verbatim>\<open>base\<close> and \<^verbatim>\<open>other\<close> and every field
  \<open>f\<close> (a root key other than \<^verbatim>\<open>attr\<close> itself, or a key of \<^verbatim>\<open>attr\<close>) at which
  \<^verbatim>\<open>base\<close> is not at its empty value, \<^verbatim>\<open>port_info_merge(base, other)\<close> returns, and
  afterwards \<^verbatim>\<open>base.f\<close> has the value it had, with one exception: when \<open>f\<close> is a
  field the merge visits (the root keys \<^verbatim>\<open>version\<close>, \<^verbatim>\<open>name\<close>, \<^verbatim>\<open>items\<close>,
  \<^verbatim>\<open>items_opt\<close>, and every key of \<^verbatim>\<open>attr\<close>) and \<^verbatim>\<open>base.f\<close> and \<^verbatim>\<open>other.f\<close> are
  both booleans (\<^verbatim>\<open>True\<close>, \<^verbatim>\<open>False\<close>, or the integers 1 and 0 that Python equates
  with them), \<^verbatim>\<open>base.f\<close> has the value of \<^verbatim>\<open>other.f\<close>. The root keys \<^verbatim>\<open>status\<close> and
  \<^verbatim>\<open>files\<close> are not visited, so there a boolean is kept too.
\<close>

theorem merge_populated_field:
  assumes "is_port_info base" and "is_port_info other"
    and "f \<noteq> Root ''attr''"
    and "field_get base f = Some a"
    and "\<not> is_empty a"
  shows "\<exists>r. port_info_merge base (PDict other) = (r, Inr (PDict r))
           \<and> field_get r f =
               (if merged_field f \<and> in_true_false a
                     \<and> (\<exists>b. field_get other f = Some b \<and> in_true_false b)
                then field_get other f
                else Some a)"
proof -
  let ?ks = "map fst PORT_INFO_ROOT_ATTRS"
  let ?both = "in_true_false a \<and> (\<exists>b. field_get other f = Some b \<and> in_true_false b)"
  obtain p1 e1 where r1: "merge_root_loop ?ks base other = (p1, e1)"
    by (cases "merge_root_loop ?ks base other")
  have present: "\<forall>k \<in> set ?ks. map_of base k \<noteq> None \<and> map_of other k \<noteq> None"
    using assms(1,2) by (simp add: is_port_info_def list_all_iff)
  then have "snd (merge_root_loop ?ks base other) = None"
    by (rule merge_root_loop_ok)
  with r1 have e1: "e1 = None"
    by simp
  from assms(1) obtain attrs where attrs: "map_of base ''attr'' = Some (PDict attrs)"
    by (rule is_port_info_attr)
  from assms(2) obtain other_attrs
    where other_attrs: "map_of other ''attr'' = Some (PDict other_attrs)" and wf: "wf_dict other_attrs"
    by (rule is_port_info_attr)
  have "map_of (fst (merge_root_loop ?ks base other)) ''attr'' = map_of base ''attr''"
    by (intro merge_root_loop_frame) (simp add: root_keys)
  with r1 attrs have p1_attr: "map_of p1 ''attr'' = Some (PDict attrs)"
    by simp
  obtain p2 e2 where r2: "merge_attr_loop other_attrs p1 = (p2, e2)"
    by (cases "merge_attr_loop other_attrs p1")
  have "snd (merge_attr_loop other_attrs p1) = None"
    using p1_attr by (rule merge_attr_loop_ok)
  with r2 have e2: "e2 = None"
    by simp
  have ret: "port_info_merge base (PDict other) = (p2, Inr (PDict p2))"
    using r1 e1 r2 e2 other_attrs by (simp add: port_info_merge_def)
  have field: "field_get p2 f = (if merged_field f \<and> ?both then field_get other f else Some a)"
  proof (cases f)
    case (Root k)
    with assms(3) have k: "k \<noteq> ''attr''"
      by simp
    have "map_of (fst (merge_attr_loop other_attrs p1)) k = map_of p1 k"
      using k by (rule merge_attr_loop_frame)
    with r2 have p2: "map_of p2 k = map_of p1 k"
      by simp
    from assms(4) Root have a: "map_of base k = Some a"
      by simp
    show ?thesis
    proof (cases "merged_field f")
      case False
      with Root have "k \<notin> set (takeWhile (\<lambda>attr. attr \<noteq> ''attr'') ?ks)"
        by simp
      then have "map_of (fst (merge_root_loop ?ks base other)) k = map_of base k"
        by (rule merge_root_loop_frame)
      with r1 p2 a False Root show ?thesis
        by simp
    next
      case visited: True
      show ?thesis
      proof (cases ?both)
        case True
        then obtain b where b: "map_of other k = Some b" and bb: "in_true_false b"
          and ba: "in_true_false a"
          using Root by auto
        from visited Root have "k \<in> set (takeWhile (\<lambda>attr. attr \<noteq> ''attr'') ?ks)"
          by simp
        with present have "map_of (fst (merge_root_loop ?ks base other)) k = Some b"
          using a ba b bb by (rule merge_root_loop_overwrites)
        with r1 p2 b True visited Root show ?thesis
          by simp
      next
        case False
        then have "\<not> (in_true_false a \<and> (\<exists>b. map_of other k = Some b \<and> in_true_false b))"
          using Root by simp
        with a assms(5) have "map_of (fst (merge_root_loop ?ks base other)) k = Some a"
          by (rule merge_root_loop_keeps)
        with r1 p2 False Root show ?thesis
          by auto
      qed
    qed
  next
    case (Attr k)
    have a: "map_of attrs k = Some a"
      using assms(4) Attr attrs by simp
    have get: "field_get other f = map_of other_attrs k"
      using Attr other_attrs by simp
    show ?thesis
    proof (cases ?both)
      case True
      then obtain b where b: "map_of other_attrs k = Some b" and bb: "in_true_false b"
        and ba: "in_true_false a"
        using get by auto
      from b have "(k, b) \<in> set other_attrs"
        by (rule map_of_SomeD)
      with p1_attr a ba wf
      have "\<exists>attrs'. map_of (fst (merge_attr_loop other_attrs p1)) ''attr'' = Some (PDict attrs')
             \<and> map_of attrs' k = Some b"
        using bb unfolding wf_dict_def by (rule merge_attr_loop_overwrites)
      with r2 have "field_get p2 f = Some b"
        using Attr by auto
      with True get b Attr show ?thesis
        by simp
    next
      case False
      have "\<forall>b. (k, b) \<in> set other_attrs \<longrightarrow> \<not> (in_true_false a \<and> in_true_false b)"
        using False get wf by (auto simp: wf_dict_def)
      with p1_attr a assms(5)
      have "\<exists>attrs'. map_of (fst (merge_attr_loop other_attrs p1)) ''attr'' = Some (PDict attrs')
             \<and> map_of attrs' k = Some a"
        by (rule merge_attr_loop_keeps)
      with r2 have "field_get p2 f = Some a"
        using Attr by auto
      with False show ?thesis
        by auto
    qed
  qed
  from ret field show ?thesis
    by blast
qed

theorem merge_populated_field_witness:
  "is_port_info quake_port \<and> is_port_info held_port \<and> is_port_info doom_port
   \<and> field_get quake_port (Attr ''title'') = Some (PStr ''Quake'')
   \<and> field_get doom_port (Attr ''title'') = Some (PStr ''Doom'')
   \<and> field_get (fst (port_info_merge quake_port (PDict doom_port))) (Attr ''title'')
       = Some (PStr ''Quake'')
   \<and> field_get quake_port (Root ''name'') = Some (PStr ''quake'')
   \<and> field_get doom_port (Root ''name'') = Some (PStr ''doom'')
   \<and> field_get (fst (port_info_merge quake_port (PDict doom_port))) (Root ''name'')
       = Some (PStr ''quake'')
   \<and> field_get quake_port (Attr ''rtr'') = Some (PBool True)
   \<and> field_get doom_port (Attr ''rtr'') = Some (PBool False)
   \<and> field_get (fst (port_info_merge quake_port (PDict doom_port))) (Attr ''rtr'')
       = Some (PBool False)
   \<and> field_get held_port (Root ''status'') = Some (PBool True)
   \<and> field_get doom_port (Root ''status'') = Some (PBool False)
   \<and> field_get (fst (port_info_merge held_port (PDict doom_port))) (Root ''status'')
       = Some (PBool True)"
proof -
  note q = is_port_info_quake_port and h = is_port_info_held_port and d = is_port_info_doom_port
  have title: "field_get quake_port (Attr ''title'') = Some (PStr ''Quake'')"
    and name: "field_get quake_port (Root ''name'') = Some (PStr ''quake'')"
    and rtr: "field_get quake_port (Attr ''rtr'') = Some (PBool True)"
    by (simp_all add: quake_port_def)
  have status: "field_get held_port (Root ''status'') = Some (PBool True)"
    by (simp add: held_port_def quake_port_def dict_set_def)
  have other: "field_get doom_port (Attr ''title'') = Some (PStr ''Doom'')"
    "field_get doom_port (Root ''name'') = Some (PStr ''doom'')"
    "field_get doom_port (Attr ''rtr'') = Some (PBool False)"
    "field_get doom_port (Root ''status'') = Some (PBool False)"
    by (simp_all add: doom_port_def)
  have visited: "merged_field (Attr ''title'')" "merged_field (Root ''name'')"
    "merged_field (Attr ''rtr'')" "\<not> merged_field (Root ''status'')"
    by (simp_all add: PORT_INFO_ROOT_ATTRS_def)
  have full: "\<not> is_empty (PStr ''Quake'')" "\<not> is_empty (PStr ''quake'')" "\<not> is_empty (PBool True)"
    by (simp_all add: is_empty_def)
  have "field_get (fst (port_info_merge quake_port (PDict doom_port))) (Attr ''title'')
       = Some (PStr ''Quake'')"
    using merge_populated_field [OF q d _ title full(1)] by auto
  moreover have "field_get (fst (port_info_merge quake_port (PDict doom_port))) (Root ''name'')
       = Some (PStr ''quake'')"
    using merge_populated_field [OF q d _ name full(2)] by auto
  moreover have "field_get (fst (port_info_merge quake_port (PDict doom_port))) (Attr ''rtr'')
       = Some (PBool False)"
    using merge_populated_field [OF q d _ rtr full(3)] other(3) visited(3) by auto
  moreover have "field_get (fst (port_info_merge held_port (PDict doom_port))) (Root ''status'')
       = Some (PBool True)"
    using merge_populated_field [OF h d _ status full(3)] visited(4) by auto
  ultimately show ?thesis
    using q h d title name rtr status other by simp
qed


section \<open>Properties of the source\<close>

subsection \<open>Fetching\<close>

lemma fetch_eq:
  "fetch w url =
    (w\<lparr>requests := requests w @ [url]\<rparr>,
     if status_code (http w url) = 200 then Some (http w url) else None)"
  by (simp add: fetch_def)

lemma fetch_json_eq:
  "fetch_json w url =
    (w\<lparr>requests := requests w @ [url]\<rparr>,
     if status_code (http w url) = 200 then Some (body_assets (http w url)) else None)"
  by (simp add: fetch_json_def fetch_eq)

lemma fetch_text_eq:
  "fetch_text w url =
    (w\<lparr>requests := requests w @ [url]\<rparr>,
     if status_code (http w url) = 200 then Some (body_text (http w url)) else None)"
  by (simp add: fetch_text_def fetch_eq)

subsection \<open>\<^verbatim>\<open>port_info\<close>\<close>

text \<open>
  Claim C9. For a key that is not in the \<^verbatim>\<open>ports\<close> list of a source,
  \<^verbatim>\<open>port_info(key)\<close> fails (the \<^verbatim>\<open>assert\<close> raises, with the message that the key was
  not found); for a key that is in the list, it returns the record stored for that
  key.
\<close>

theorem port_info_lookup:
  "(port_name \<notin> set (ports s) \<longrightarrow> port_info s port_name = Inl AssertionError)
   \<and> (port_name \<in> set (ports s) \<longrightarrow> map_of (src_info s) port_name = Some i \<longrightarrow>
        port_info s port_name = Inr i)"
  by (simp add: port_info_def)

theorem port_info_lookup_witness:
  "''doom.zip'' \<notin> set (ports quake_source)
   \<and> port_info quake_source ''doom.zip'' = Inl AssertionError
   \<and> ''quake.zip'' \<in> set (ports quake_source)
   \<and> map_of (src_info quake_source) ''quake.zip'' = Some quake_info
   \<and> port_info quake_source ''quake.zip'' = Inr quake_info"
  using port_info_lookup [of "''doom.zip''" quake_source]
    port_info_lookup [of "''quake.zip''" quake_source quake_info]
  by (simp add: quake_source_def)

text \<open>
  The lists that \<^verbatim>\<open>update()\<close> builds agree: every key it puts in \<^verbatim>\<open>ports\<close> has a
  record in the info index.
\<close>

lemma lines_loop_ports_have_info:
  assumes "\<forall>k \<in> set (ports s). map_of (src_info s) k \<noteq> None"
  shows "\<forall>k \<in> set (ports (fst (lines_loop ls s))). map_of (src_info (fst (lines_loop ls s))) k \<noteq> None"
  using assms
proof (induction ls s rule: lines_loop.induct)
  case (1 s)
  then show ?case by simp
next
  case (2 line rest s)
  show ?case
  proof (cases "strip line = ''''")
    case True
    with 2 show ?thesis by simp
  next
    case False
    show ?thesis
    proof (cases "map_of (parse_port_info (strip line)) ''file''")
      case None
      with False 2 show ?thesis by simp
    next
      case (Some v)
      show ?thesis
      proof (cases v)
        case (PStr f)
        let ?s = "s\<lparr>src_info := AList.update (clean_name f) (parse_port_info (strip line)) (src_info s),
                     ports := ports s @ [clean_name f]\<rparr>"
        have "\<forall>k \<in> set (ports ?s). map_of (src_info ?s) k \<noteq> None"
          using "2.prems" by (simp add: update_conv')
        with "2.IH"(2) [OF False Some PStr] show ?thesis
          using False Some PStr by simp
      qed (use False Some "2.prems" in simp_all)
    qed
  qed
qed

lemma foldl_asset_step_ports:
  "ports (foldl asset_step s assets) = ports s \<and> src_info (foldl asset_step s assets) = src_info s
   \<and> src_config (foldl asset_step s assets) = src_config s
   \<and> src_file_name (foldl asset_step s assets) = src_file_name s"
  by (induction assets arbitrary: s) (simp_all add: asset_step_def Let_def)

lemma lines_loop_config:
  "src_config (fst (lines_loop ls s)) = src_config s
   \<and> src_file_name (fst (lines_loop ls s)) = src_file_name s"
  by (induction ls s rule: lines_loop.induct) (auto split: option.splits pyval.splits)

lemma update_ports_have_info:
  "\<forall>k \<in> set (ports (fst (snd (update w s)))). map_of (src_info (fst (snd (update w s)))) k \<noteq> None"
proof -
  let ?s1 = "s\<lparr>src_data := [], src_info := [], ports := [], utils := []\<rparr>"
  have inv: "\<forall>k \<in> set (ports (fst (lines_loop ls (foldl asset_step ?s1 assets)))).
      map_of (src_info (fst (lines_loop ls (foldl asset_step ?s1 assets)))) k \<noteq> None" for ls assets
    by (rule lines_loop_ports_have_info) (simp add: foldl_asset_step_ports)
  have r: "\<forall>k \<in> set (ports s3). map_of (src_info s3) k \<noteq> None"
    if "lines_loop ls (foldl asset_step ?s1 assets) = (s3, e)" for ls assets s3 e
    using inv [of ls assets] that by simp
  show ?thesis
    by (auto simp: update_def fetch_json_eq fetch_text_eq Let_def foldl_asset_step_ports
        split: option.splits prod.splits dest: r)
qed

subsection \<open>\<^verbatim>\<open>update()\<close> when a fetch fails\<close>






subsection \<open>Construction\<close>

lemma run_update_requests:
  "\<exists>rest. requests (fst (run_update w s)) = requests w @ cfg_url (src_config s) # rest"
  by (auto simp: run_update_def update_def fetch_json_eq fetch_text_eq Let_def
      split: option.splits prod.splits)

lemma load_cache_full:
  assumes "cfg_data (src_config s) =
    \<lparr>cache_ports = Some p, cache_utils = Some u, cache_info = Some i, cache_data = Some d\<rparr>"
  shows "load_cache s = Inr (s\<lparr>src_data := d, src_info := i, ports := p, utils := u\<rparr>)"
  using assms by (simp add: load_cache_def)

lemma datetime_compare_within_a_day:
  assumes "0 \<le> time_b - time_a" and "time_b - time_a < 86400 * 1000000"
  shows "datetime_compare time_a time_b = (time_b - time_a) div 1000000"
proof -
  have "0 \<le> (time_b - time_a) div 1000000"
    using assms(1) by simp
  moreover have "(time_b - time_a) div 1000000 < 86400"
    using assms(2) by simp
  ultimately show ?thesis
    by (simp add: datetime_compare_def)
qed

text \<open>
  Claim C1 says that a cached document whose \<^verbatim>\<open>last_checked\<close> is at least the
  threshold old triggers \<^verbatim>\<open>update()\<close>. The comparison is strict: the document below
  has the current cache version and was checked exactly 22 hours before, and the
  source is built from the cache, with no request made, where \<^verbatim>\<open>update()\<close> would
  have made one.
\<close>

theorem init_at_threshold_loads_cache:
  "cfg_version quake_cfg = VERSION
   \<and> cfg_last_checked quake_cfg = Some 0
   \<and> UPDATE_FREQUENCY * 1000000 \<le> now (offline (79200 * 1000000)) - 0
   \<and> init (offline (79200 * 1000000)) (Path ''/tmp/hm'')
        (Path ''config/000_portmaster.source.json'') quake_cfg
       = (offline (79200 * 1000000), Inr quake_source)
   \<and> requests (fst (run_update (offline (79200 * 1000000))
        (blank_source (Path ''/tmp/hm'') (Path ''config/000_portmaster.source.json'') quake_cfg)))
       = [''http://host/latest'']"
  by (simp add: init_def quake_cfg_def VERSION_def UPDATE_FREQUENCY_def datetime_compare_def
      offline_def load_cache_def blank_source_def quake_source_def run_update_def update_def
      fetch_json_eq not_found_def)

text \<open>
  The seconds of the difference are read with \<^verbatim>\<open>.seconds\<close>, which leaves the days
  out: a document checked 25 hours before is taken to be one hour old, and loaded
  from the cache.
\<close>

lemma init_after_25_hours_loads_cache:
  "init (offline (90000 * 1000000)) (Path ''/tmp/hm'')
        (Path ''config/000_portmaster.source.json'') quake_cfg
       = (offline (90000 * 1000000), Inr quake_source)"
  by (simp add: init_def quake_cfg_def VERSION_def UPDATE_FREQUENCY_def datetime_compare_def
      offline_def load_cache_def blank_source_def quake_source_def)

text \<open>
  Claim C1, amended. For a document whose cache version is the current one and
  whose \<^verbatim>\<open>last_checked\<close> is set, and a time elapsed since then of less than one day
  (and not negative): if the whole seconds elapsed exceed the threshold,
  construction runs \<^verbatim>\<open>update()\<close>, which requests the URL of the document first; if
  they do not exceed it, construction leaves the world as it is (no request is
  made) and builds the source from the cached payload, which it returns when the
  payload has its four parts.
\<close>

theorem init_refresh_decision:
  assumes "cfg_version cfg = VERSION" and "cfg_last_checked cfg = Some t"
    and "0 \<le> now w - t" and "now w - t < 86400 * 1000000"
  shows "(UPDATE_FREQUENCY < (now w - t) div 1000000 \<longrightarrow>
            init w temp_dir file_name cfg = run_update w (blank_source temp_dir file_name cfg)
            \<and> (\<exists>rest. requests (fst (init w temp_dir file_name cfg)) = requests w @ cfg_url cfg # rest))
   \<and> ((now w - t) div 1000000 \<le> UPDATE_FREQUENCY \<longrightarrow>
            init w temp_dir file_name cfg = (w, load_cache (blank_source temp_dir file_name cfg))
            \<and> (\<forall>p u i d. cfg_data cfg =
                  \<lparr>cache_ports = Some p, cache_utils = Some u, cache_info = Some i, cache_data = Some d\<rparr>
                \<longrightarrow> snd (init w temp_dir file_name cfg) =
                      Inr ((blank_source temp_dir file_name cfg)
                            \<lparr>src_data := d, src_info := i, ports := p, utils := u\<rparr>)))"
proof -
  have dc: "datetime_compare t (now w) = (now w - t) div 1000000"
    using assms(3,4) by (rule datetime_compare_within_a_day)
  have url: "cfg_url (src_config (blank_source temp_dir file_name cfg)) = cfg_url cfg"
    by (simp add: blank_source_def)
  have cfg: "cfg_data (src_config (blank_source temp_dir file_name cfg)) = cfg_data cfg"
    by (simp add: blank_source_def)
  show ?thesis
  proof (intro conjI impI allI)
    assume late: "UPDATE_FREQUENCY < (now w - t) div 1000000"
    then show eq: "init w temp_dir file_name cfg = run_update w (blank_source temp_dir file_name cfg)"
      using assms(1,2) dc by (simp add: init_def)
    show "\<exists>rest. requests (fst (init w temp_dir file_name cfg)) = requests w @ cfg_url cfg # rest"
      using run_update_requests [of w "blank_source temp_dir file_name cfg"] eq url by simp
  next
    assume early: "(now w - t) div 1000000 \<le> UPDATE_FREQUENCY"
    then show eq: "init w temp_dir file_name cfg = (w, load_cache (blank_source temp_dir file_name cfg))"
      using assms(1,2) dc by (simp add: init_def)
    fix p u i d
    assume "cfg_data cfg =
      \<lparr>cache_ports = Some p, cache_utils = Some u, cache_info = Some i, cache_data = Some d\<rparr>"
    with cfg have "load_cache (blank_source temp_dir file_name cfg) =
        Inr ((blank_source temp_dir file_name cfg)\<lparr>src_data := d, src_info := i, ports := p, utils := u\<rparr>)"
      by (intro load_cache_full) simp
    with eq show "snd (init w temp_dir file_name cfg) =
        Inr ((blank_source temp_dir file_name cfg)\<lparr>src_data := d, src_info := i, ports := p, utils := u\<rparr>)"
      by simp
  qed
qed

theorem init_refresh_decision_witness:
  "cfg_version quake_cfg = VERSION
   \<and> cfg_last_checked quake_cfg = Some 0
   \<and> (0::int) \<le> now (offline (79201 * 1000000)) - 0
   \<and> now (offline (79201 * 1000000)) - 0 < 86400 * 1000000
   \<and> UPDATE_FREQUENCY < (now (offline (79201 * 1000000)) - 0) div 1000000
   \<and> requests (fst (init (offline (79201 * 1000000)) (Path ''/tmp/hm'')
        (Path ''config/000_portmaster.source.json'') quake_cfg)) = [''http://host/latest'']
   \<and> (0::int) \<le> now (offline (3600 * 1000000)) - 0
   \<and> now (offline (3600 * 1000000)) - 0 < 86400 * 1000000
   \<and> (now (offline (3600 * 1000000)) - 0) div 1000000 \<le> UPDATE_FREQUENCY
   \<and> init (offline (3600 * 1000000)) (Path ''/tmp/hm'')
        (Path ''config/000_portmaster.source.json'') quake_cfg
       = (offline (3600 * 1000000), Inr quake_source)"
proof -
  have v: "cfg_version quake_cfg = VERSION" and c: "cfg_last_checked quake_cfg = Some 0"
    by (simp_all add: quake_cfg_def VERSION_def)
  have late: "(0::int) \<le> now (offline (79201 * 1000000)) - 0"
      "now (offline (79201 * 1000000)) - 0 < 86400 * 1000000"
      "UPDATE_FREQUENCY < (now (offline (79201 * 1000000)) - 0) div 1000000"
    by (simp_all add: offline_def UPDATE_FREQUENCY_def)
  have early: "(0::int) \<le> now (offline (3600 * 1000000)) - 0"
      "now (offline (3600 * 1000000)) - 0 < 86400 * 1000000"
      "(now (offline (3600 * 1000000)) - 0) div 1000000 \<le> UPDATE_FREQUENCY"
    by (simp_all add: offline_def UPDATE_FREQUENCY_def)
  have upd: "requests (fst (run_update (offline (79201 * 1000000))
        (blank_source (Path ''/tmp/hm'') (Path ''config/000_portmaster.source.json'') quake_cfg)))
       = [''http://host/latest'']"
    by (simp add: run_update_def update_def fetch_json_eq offline_def not_found_def
        blank_source_def quake_cfg_def)
  have cache: "load_cache
        (blank_source (Path ''/tmp/hm'') (Path ''config/000_portmaster.source.json'') quake_cfg)
       = Inr quake_source"
    by (simp add: load_cache_def blank_source_def quake_cfg_def quake_source_def)
  from init_refresh_decision [OF v c late(1,2),
      of "Path ''/tmp/hm''" "Path ''config/000_portmaster.source.json''"]
    init_refresh_decision [OF v c early(1,2),
      of "Path ''/tmp/hm''" "Path ''config/000_portmaster.source.json''"]
  show ?thesis
    using v c late early upd cache by simp
qed

subsection \<open>\<^verbatim>\<open>download\<close>\<close>

lemma amount_overflows_mono:
  assumes "\<not> amount_overflows len' total_length" and "len \<le> len'"
  shows "\<not> amount_overflows len total_length"
  using assms by (simp add: amount_overflows_def)

lemma chunks_loop_ok:
  assumes "total_length \<noteq> 0 \<or> chunks = []"
    and "\<not> amount_overflows (len + length (concat chunks)) total_length"
  shows "chunks_loop total_length chunks (fed, written, len) =
    ((fed @ concat chunks, written @ concat chunks, len + length (concat chunks)), None)"
  using assms
proof (induction chunks arbitrary: fed written len)
  case Nil
  show ?case by simp
next
  case (Cons d ds)
  from Cons.prems(1) have t: "total_length \<noteq> 0"
    by simp
  have rest: "\<not> amount_overflows (len + length d + length (concat ds)) total_length"
    using Cons.prems(2) by (simp add: add.assoc)
  then have "\<not> amount_overflows (len + length d) total_length"
    by (rule amount_overflows_mono) simp
  moreover have "chunks_loop total_length ds (fed @ d, written @ d, len + length d) =
      (((fed @ d) @ concat ds, (written @ d) @ concat ds, len + length d + length (concat ds)), None)"
    using t rest by (intro Cons.IH) simp_all
  ultimately show ?case
    using t by (simp add: add.assoc)
qed

text \<open>
  Claim C4 says, for every call of \<^verbatim>\<open>download\<close>, that when the digest of the bytes
  streamed differs from the value of the checksum file, the partly written file is
  deleted and the call fails. In the call below the catalog gives the size 0, the
  answer has no \<^verbatim>\<open>content-length\<close>, and one chunk \<^verbatim>\<open>ab\<close> arrives, whose digest is
  not the one in the checksum file. The chunk is written, the progress line then
  divides by the total of zero, and the call ends with \<^verbatim>\<open>ZeroDivisionError\<close>: the
  file is still there, holding \<^verbatim>\<open>ab\<close>.
\<close>

theorem download_zero_total_keeps_partial_file:
  "map_of (src_data zero_size_source) ''quake.zip'' =
      Some \<lparr>entry_name = ''Quake.zip'', entry_size = Some 0, entry_url = ''http://host/Quake.zip''\<rparr>
   \<and> status_code (http (serving [''ab'']) ''http://host/Quake.zip'') = 200
   \<and> content_length (http (serving [''ab'']) ''http://host/Quake.zip'') = None
   \<and> body_chunks (http (serving [''ab'']) ''http://host/Quake.zip'') = [''ab'']
   \<and> toy_md5 ''ab'' = ''187ef4436122d1cc2f40dc2b92f0eba0''
   \<and> strip (body_text (http (serving [''ab'']) ''http://host/Quake.zip.md5''))
       = ''900150983cd24fb0d6963f7d28e17f72''
   \<and> snd (download toy_md5 (serving [''ab'']) zero_size_source ''quake.zip'')
       = Inl ZeroDivisionError
   \<and> files (fst (download toy_md5 (serving [''ab'']) zero_size_source ''quake.zip''))
        (Join (Path ''/tmp/hm'') ''quake.zip'') = Some (Bytes ''ab'')"
  by (simp add: download_def fetch_text_eq zero_size_source_def quake_source_def serving_def
      toy_md5_def strip_def is_space_def true_div_overflows_def)

text \<open>
  The same holds of every call with a total length of zero and a first chunk: the
  call raises after writing that chunk, whatever the digests are.
\<close>

lemma download_zero_total_raises:
  assumes "map_of (src_data s) (port_name @ ''.md5'') = Some e_md5"
    and "status_code (http w (entry_url e_md5)) = 200"
    and "map_of (src_data s) port_name = Some e"
    and "status_code (http w (entry_url e)) = 200"
    and "(case content_length (http w (entry_url e)) of None \<Rightarrow> entry_size e | Some n \<Rightarrow> Some n)
          = Some 0"
    and "body_chunks (http w (entry_url e)) = d # ds"
  shows "snd (download md5_hexdigest w s port_name) = Inl ZeroDivisionError"
    and "files (fst (download md5_hexdigest w s port_name)) (Join (hm_temp_dir s) port_name)
           = Some (Bytes d)"
  using assms by (simp_all add: download_def fetch_text_eq Let_def true_div_overflows_def)

text \<open>
  The message printed before the file is opened raises as well, for a size that is
  \<^verbatim>\<open>None\<close> or too large for a float; no file is written then.
\<close>

lemma download_size_message_raises:
  assumes "map_of (src_data s) (port_name @ ''.md5'') = Some e_md5"
    and "status_code (http w (entry_url e_md5)) = 200"
    and "map_of (src_data s) port_name = Some e"
    and "status_code (http w (entry_url e)) = 200"
  shows "content_length (http w (entry_url e)) = None \<Longrightarrow> entry_size e = None \<Longrightarrow>
           snd (download md5_hexdigest w s port_name) = Inl TypeError
           \<and> files (fst (download md5_hexdigest w s port_name)) = files w"
    and "content_length (http w (entry_url e)) = Some n \<Longrightarrow> true_div_overflows n 1024 \<Longrightarrow>
           snd (download md5_hexdigest w s port_name) = Inl OverflowError
           \<and> files (fst (download md5_hexdigest w s port_name)) = files w"
  using assms by (simp_all add: download_def fetch_text_eq Let_def)

text \<open>
  On the calls that get as far as the comparison the claim holds. These are the
  calls for which the catalog has \<^verbatim>\<open>key\<close> and \<^verbatim>\<open>key + '.md5'\<close>, both requests are
  answered with status 200, and the total length is a number that the two progress
  messages can divide by: not zero (unless no chunk arrives) and without overflow.
  Then, if the hex digest of the bytes received differs from the stripped text of
  the checksum file, the call returns \<^verbatim>\<open>None\<close> and the local file is gone; if they
  are equal, the call returns the path of the local file, and the file holds
  exactly the bytes received.
\<close>

lemma download_checks_digest:
  assumes "map_of (src_data s) (port_name @ ''.md5'') = Some e_md5"
    and "status_code (http w (entry_url e_md5)) = 200"
    and "map_of (src_data s) port_name = Some e"
    and "status_code (http w (entry_url e)) = 200"
    and "(case content_length (http w (entry_url e)) of None \<Rightarrow> entry_size e | Some n \<Rightarrow> Some n)
          = Some total_length"
    and "total_length \<noteq> 0 \<or> body_chunks (http w (entry_url e)) = []"
    and "\<not> true_div_overflows total_length 1024"
    and "\<not> amount_overflows (length (concat (body_chunks (http w (entry_url e))))) total_length"
  shows "(md5_hexdigest (concat (body_chunks (http w (entry_url e))))
            \<noteq> strip (body_text (http w (entry_url e_md5))) \<longrightarrow>
          snd (download md5_hexdigest w s port_name) = Inr None
          \<and> files (fst (download md5_hexdigest w s port_name)) (Join (hm_temp_dir s) port_name) = None)
      \<and> (md5_hexdigest (concat (body_chunks (http w (entry_url e))))
            = strip (body_text (http w (entry_url e_md5))) \<longrightarrow>
          snd (download md5_hexdigest w s port_name) = Inr (Some (Join (hm_temp_dir s) port_name))
          \<and> files (fst (download md5_hexdigest w s port_name)) (Join (hm_temp_dir s) port_name)
              = Some (Bytes (concat (body_chunks (http w (entry_url e))))))"
proof -
  let ?chunks = "body_chunks (http w (entry_url e))"
  have loop: "chunks_loop total_length ?chunks ([], [], 0) =
      ((concat ?chunks, concat ?chunks, length (concat ?chunks)), None)"
    using chunks_loop_ok [OF assms(6), of 0 "[]" "[]"] assms(8) by simp
  show ?thesis
    using assms(1-5,7) loop
    by (simp add: download_def fetch_text_eq Let_def)
qed

lemma download_examples:
  "snd (download toy_md5 (serving [''ab'', ''c'']) quake_source ''quake.zip'')
     = Inr (Some (Join (Path ''/tmp/hm'') ''quake.zip''))"
  "files (fst (download toy_md5 (serving [''ab'', ''c'']) quake_source ''quake.zip''))
     (Join (Path ''/tmp/hm'') ''quake.zip'') = Some (Bytes ''abc'')"
  "snd (download toy_md5 (serving [''ab'']) quake_source ''quake.zip'') = Inr None"
  "files (fst (download toy_md5 (serving [''ab'']) quake_source ''quake.zip''))
     (Join (Path ''/tmp/hm'') ''quake.zip'') = None"
  by (simp_all add: download_def fetch_text_eq quake_source_def quake_entries_def serving_def
      toy_md5_def strip_def is_space_def true_div_overflows_def amount_overflows_def
      amount_bound_def Let_def)

end
